theory Spec2Isabelle
  imports Main
begin

section \<open>Data model of github_tag_version\<close>

text \<open>
  Python dictionaries keep their keys in insertion order and have no duplicate keys.
  A dictionary is an association list; \<open>dict_set\<close> is the assignment \<open>d[k] = x\<close>
  (the value is replaced in place when the key exists, the pair is appended otherwise);
  \<open>dict_update\<close> is \<open>d.update(other)\<close>, which assigns the pairs of \<open>other\<close> in order.
\<close>

type_synonym 'a dict = "(string \<times> 'a) list"

fun dict_set :: "'a dict \<Rightarrow> string \<Rightarrow> 'a \<Rightarrow> 'a dict" where
  "dict_set [] k x = [(k, x)]"
| "dict_set ((k', x') # d) k x =
     (if k' = k then (k, x) # d else (k', x') # dict_set d k x)"

definition dict_update :: "'a dict \<Rightarrow> 'a dict \<Rightarrow> 'a dict" where
  "dict_update d other = fold (\<lambda>(k, x) acc. dict_set acc k x) other d"

text \<open>The exception classes of the hosting platform's client (PyGithub):
  \<open>RateLimitExceededException\<close> and \<open>UnknownObjectException\<close> are subclasses of
  \<open>GithubException\<close>; the third constructor is every other \<open>GithubException\<close>.\<close>

datatype gh_error = RateLimitExceededException | UnknownObjectException | GithubException

text \<open>The tagger of a tag. \<open>GitAuthor\<close> has the attributes name, email and date;
  \<open>InputGitAuthor\<close> only has the dictionary \<open>_identity\<close>; \<open>OtherAuthor\<close> is an object
  of any other class, with the name of its class.\<close>

datatype author =
    GitAuthor string string string
  | InputGitAuthor "string dict"
  | OtherAuthor string

text \<open>The per-product failures that the stages put on their \<open>problems\<close> list (or raise at
  once under fail-fast):
  the two \<open>RuntimeError\<close>s of \<open>cross_reference_products\<close> (product and version strings),
  \<open>pygithub.CaughtUnknownObjectError\<close> (product name),
  \<open>pygithub.RepositoryTeamMembershipError\<close> (repository name),
  \<open>GitTagExistsError\<close> (tag name and sha of the existing tag) and
  \<open>pygithub.CaughtRepositoryError\<close> (repository name and the caught exception).\<close>

datatype failure =
    MissingManifest string string
  | VersionMismatch string string string
  | CaughtUnknownObjectError string gh_error
  | RepositoryTeamMembershipError string
  | GitTagExistsError string string
  | CaughtRepositoryError string gh_error

text \<open>What a stage raises: an individual failure (fail-fast), \<open>codetools.DogpileError\<close> with the
  ordered list of failures, an exception of the hosting platform that is not handled,
  or one of Python's own exceptions.\<close>

datatype error =
    Raised failure
  | DogpileError "failure list"
  | Github gh_error
  | KeyError string
  | UnboundLocalError string
  | TypeError
  | ValueError
  | AttributeError
  | UnsupportedType string

text \<open>Log records: the helpers \<open>info\<close>, \<open>warn\<close> and \<open>error\<close> of \<open>codetools\<close> with the
  message they are given; \<open>debug\<close> output is not recorded. A message is kept by its
  template and the values formatted into it.\<close>

datatype level = INFO | WARN | ERROR

datatype message =
    FailureMsg failure
  | ConflictingValues string string string author string string author
  | NoAction string string
  | WillBeMoved string
  | TaggingRepo string string string string bool bool
  | Noop

text \<open>Requests to the hosting platform that change a repository:
  \<open>repo.create_git_tag(name, message, sha, type, tagger)\<close>,
  \<open>ref.edit(sha, force)\<close> and \<open>repo.create_git_ref(ref, sha)\<close>, each with the full name
  of the repository it is sent to.\<close>

datatype call =
    CreateGitTag string string string string string author
  | EditRef string string string bool
  | CreateGitRef string string string

datatype event = Log level message | Call call

text \<open>The state of one pass over the products: the mapping built so far, the \<open>problems\<close>
  list, and what was logged and requested, in order. A stage that raises gives the
  exception with the events up to it.\<close>

record 'a pass =
  results :: 'a
  problems :: "failure list"
  events :: "event list"

type_synonym 'a raises = "(error \<times> event list) + 'a"

definition and_then :: "'e + 'a \<Rightarrow> ('a \<Rightarrow> 'e + 'b) \<Rightarrow> 'e + 'b" where
  "and_then m f = (case m of Inl e \<Rightarrow> Inl e | Inr x \<Rightarrow> f x)"

text \<open>A \<open>for\<close> loop over the items of a dictionary: the body runs on each item in
  order, on the state the item before left; an exception ends the loop.\<close>

fun for_each :: "('i \<Rightarrow> 's \<Rightarrow> 'e + 's) \<Rightarrow> 'i list \<Rightarrow> 's \<Rightarrow> 'e + 's" where
  "for_each body [] st = Inr st"
| "for_each body (item # items) st = and_then (body item st) (for_each body items)"

definition dict_get :: "'a dict \<Rightarrow> string \<Rightarrow> error + 'a" where
  "dict_get d k = (case map_of d k of None \<Rightarrow> Inl (KeyError k) | Some x \<Rightarrow> Inr x)"

section \<open>cross_reference_products\<close>

text \<open>The local variable \<open>manifest_data\<close> of the loop keeps its binding from one iteration
  to the next; before its first assignment it is unbound.\<close>

record xref_pass = "string dict dict pass" +
  manifest_data :: "string dict option"

text \<open>Lines 182-195: the lookup in the manifest and its \<open>except KeyError\<close> handler. The
  handler has no \<open>continue\<close>.\<close>

definition xref_lookup ::
  "string dict dict \<Rightarrow> bool \<Rightarrow> string \<Rightarrow> string dict \<Rightarrow> xref_pass \<Rightarrow> xref_pass raises" where
  "xref_lookup manifest_products fail_fast pname eups_data st =
     (case map_of manifest_products pname of
        Some m \<Rightarrow> Inr (st\<lparr>manifest_data := Some m\<rparr>)
      | None \<Rightarrow>
          (case dict_get eups_data ''eups_version'' of
             Inl e \<Rightarrow> Inl (e, events st)
           | Inr ver \<Rightarrow>
               (let yikes = MissingManifest pname ver in
                if fail_fast then Inl (Raised yikes, events st)
                else Inr (st\<lparr>problems := problems st @ [yikes],
                              events := events st @ [Log ERROR (FailureMsg yikes)]\<rparr>))))"

text \<open>Lines 197-202: under \<open>ignore_version\<close> the manifest record is copied and its version
  string replaced by the eups one.\<close>

definition xref_ignore :: "bool \<Rightarrow> string dict \<Rightarrow> xref_pass \<Rightarrow> xref_pass raises" where
  "xref_ignore ignore_version eups_data st =
     (if ignore_version then
        (case manifest_data st of
           None \<Rightarrow> Inl (UnboundLocalError ''manifest_data'', events st)
         | Some m \<Rightarrow>
             (case dict_get eups_data ''eups_version'' of
                Inl e \<Rightarrow> Inl (e, events st)
              | Inr ver \<Rightarrow> Inr (st\<lparr>manifest_data := Some (dict_set m ''eups_version'' ver)\<rparr>)))
      else Inr st)"

text \<open>Lines 204-217: the comparison of the two version strings.\<close>

definition xref_compare :: "bool \<Rightarrow> string \<Rightarrow> string dict \<Rightarrow> xref_pass \<Rightarrow> xref_pass raises" where
  "xref_compare fail_fast pname eups_data st =
     (case dict_get eups_data ''eups_version'' of
        Inl e \<Rightarrow> Inl (e, events st)
      | Inr ever \<Rightarrow>
          (case manifest_data st of
             None \<Rightarrow> Inl (UnboundLocalError ''manifest_data'', events st)
           | Some m \<Rightarrow>
               (case dict_get m ''eups_version'' of
                  Inl e \<Rightarrow> Inl (e, events st)
                | Inr mver \<Rightarrow>
                    if ever \<noteq> mver then
                      (let yikes = VersionMismatch pname ever mver in
                       if fail_fast then Inl (Raised yikes, events st)
                       else Inr (st\<lparr>problems := problems st @ [yikes],
                                     events := events st @ [Log ERROR (FailureMsg yikes)]\<rparr>))
                    else Inr st)))"

text \<open>Lines 219-220: the merged record, the eups record updated with the manifest one.\<close>

definition xref_merge :: "string \<Rightarrow> string dict \<Rightarrow> xref_pass \<Rightarrow> xref_pass raises" where
  "xref_merge pname eups_data st =
     (case manifest_data st of
        None \<Rightarrow> Inl (UnboundLocalError ''manifest_data'', events st)
      | Some m \<Rightarrow> Inr (st\<lparr>results := dict_set (results st) pname (dict_update eups_data m)\<rparr>))"

definition xref_body ::
  "string dict dict \<Rightarrow> bool \<Rightarrow> bool \<Rightarrow> string \<times> string dict \<Rightarrow> xref_pass \<Rightarrow> xref_pass raises" where
  "xref_body manifest_products ignore_version fail_fast item st =
     (case item of (pname, eups_data) \<Rightarrow>
        and_then (xref_lookup manifest_products fail_fast pname eups_data st) (\<lambda>st.
        and_then (xref_ignore ignore_version eups_data st) (\<lambda>st.
        and_then (xref_compare fail_fast pname eups_data st) (\<lambda>st.
        xref_merge pname eups_data st))))"

text \<open>The stage: the loop over \<open>eups_products.items()\<close>, then \<open>DogpileError\<close> when
  \<open>problems\<close> is not empty (its message is the number of problems). The result is paired
  with the events of the stage.\<close>

definition cross_reference_products ::
  "string dict dict \<Rightarrow> string dict dict \<Rightarrow> bool \<Rightarrow> bool \<Rightarrow> (error + string dict dict) \<times> event list" where
  "cross_reference_products eups_products manifest_products ignore_version fail_fast =
     (case for_each (xref_body manifest_products ignore_version fail_fast) eups_products
             \<lparr>results = [], problems = [], events = [], manifest_data = None\<rparr> of
        Inl (e, evs) \<Rightarrow> (Inl e, evs)
      | Inr st \<Rightarrow>
          if problems st \<noteq> [] then (Inl (DogpileError (problems st)), events st)
          else (Inr (results st), events st))"

section \<open>The hosting platform\<close>

text \<open>A git reference (\<open>ref.ref\<close>, \<open>ref.object.sha\<close>) and an annotated tag object
  (\<open>tag.sha\<close>, \<open>tag.tag\<close>, \<open>tag.message\<close>, \<open>tag.tagger\<close>, \<open>tag.object.sha\<close>).\<close>

record git_ref =
  ref_path :: string
  ref_object_sha :: string

record git_tag =
  gt_sha :: string
  gt_tag :: string
  gt_message :: string
  gt_tagger :: author
  gt_object_sha :: string

text \<open>A repository handle. The platform is an external collaborator: what it answers
  to each request is a parameter of the model, so every operation is a field giving
  either the exception raised or the value returned. \<open>get_teams\<close> gives the names of
  the teams; \<open>tag_ref\<close> is the platform's answer to the search for the tag reference of
  a short name (\<open>None\<close>: there is none); \<open>edit_git_ref\<close> is \<open>ref.edit(sha, force)\<close> on
  a reference of this repository.\<close>

record repo =
  full_name :: string
  get_teams :: "gh_error + string list"
  tag_ref :: "string \<Rightarrow> gh_error + git_ref option"
  get_git_tag :: "string \<Rightarrow> gh_error + git_tag"
  create_git_tag :: "string \<Rightarrow> string \<Rightarrow> string \<Rightarrow> string \<Rightarrow> author \<Rightarrow> gh_error + git_tag"
  create_git_ref :: "string \<Rightarrow> string \<Rightarrow> gh_error + git_ref"
  edit_git_ref :: "git_ref \<Rightarrow> string \<Rightarrow> bool \<Rightarrow> gh_error + unit"

text \<open>An organization: \<open>org.get_repo(name)\<close>.\<close>

type_synonym organization = "string \<Rightarrow> gh_error + repo"

text \<open>Modelled from the spec: \<open>pygithub.find_tag_by_name(repo, tag_name, safe)\<close> is not
  among the sources. It queries the repository for an existing reference with the tag's
  name and gives the reference, or nothing when there is none; the applier calls it with
  \<open>safe=False\<close>, where a missing reference is the platform's not-found exception.\<close>

definition find_tag_by_name :: "repo \<Rightarrow> string \<Rightarrow> bool \<Rightarrow> gh_error + git_ref option" where
  "find_tag_by_name r tname safe =
     (case tag_ref r tname of
        Inl e \<Rightarrow> Inl e
      | Inr None \<Rightarrow> if safe then Inr None else Inl UnknownObjectException
      | Inr (Some e_ref) \<Rightarrow> Inr (Some e_ref))"

text \<open>Modelled from the spec: \<open>pygithub.check_repo_teams\<close> is not among the sources. The
  policy check, in order: fail if the intersection of the team names with the allow-team
  set is empty; fail if the intersection with the deny-team set (optional) is not empty.
  The failure is \<open>RepositoryTeamMembershipError\<close>.\<close>

definition check_repo_teams ::
  "repo \<Rightarrow> string list \<Rightarrow> string list option \<Rightarrow> string list \<Rightarrow> failure + unit" where
  "check_repo_teams r allow_teams deny_teams team_names =
     (if set team_names \<inter> set allow_teams = {} then
        Inl (RepositoryTeamMembershipError (full_name r))
      else if (case deny_teams of None \<Rightarrow> False
               | Some deny \<Rightarrow> set team_names \<inter> set deny \<noteq> {}) then
        Inl (RepositoryTeamMembershipError (full_name r))
      else Inr ())"

section \<open>get_repo_for_products\<close>

text \<open>A resolved product is the dictionary of the product with two more keys:
  \<open>p_fields\<close> holds the string entries copied from the merged record, \<open>p_repo\<close> is the
  value of the key \<open>repo\<close> and \<open>p_v\<close> the value of the key \<open>v\<close>.\<close>

record product =
  p_fields :: "string dict"
  p_repo :: repo
  p_v :: bool

text \<open>Line 281: \<open>any(x in repo_team_names for x in ext_teams)\<close>. \<open>ext_teams\<close> is the value
  of the option \<open>--external-team\<close>, \<open>None\<close> when the option is not given; iterating
  over \<open>None\<close> is a \<open>TypeError\<close>.\<close>

definition has_ext_team :: "string list option \<Rightarrow> string list \<Rightarrow> error + bool" where
  "has_ext_team ext_teams repo_team_names =
     (case ext_teams of
        None \<Rightarrow> Inl TypeError
      | Some ext \<Rightarrow> Inr (list_ex (\<lambda>x. x \<in> set repo_team_names) ext))"

text \<open>Lines 245-286, the body of the loop. A \<open>continue\<close> gives the state as it is then.\<close>

definition resolve_body ::
  "organization \<Rightarrow> string list \<Rightarrow> string list option \<Rightarrow> string list option \<Rightarrow> bool \<Rightarrow>
   string \<times> string dict \<Rightarrow> (string \<times> product) list pass \<Rightarrow> (string \<times> product) list pass raises" where
  "resolve_body org allow_teams ext_teams deny_teams fail_fast item st =
     (case item of (pname, pdata) \<Rightarrow>
      (case dict_get pdata ''eups_version'' of
         Inl e \<Rightarrow> Inl (e, events st)
       | Inr ver \<Rightarrow>
      (case org pname of
         Inl UnknownObjectException \<Rightarrow>
           (let yikes = CaughtUnknownObjectError pname UnknownObjectException in
            if fail_fast then Inl (Raised yikes, events st)
            else Inr (st\<lparr>problems := problems st @ [yikes],
                          events := events st @ [Log ERROR (FailureMsg yikes)]\<rparr>))
       | Inl e \<Rightarrow> Inl (Github e, events st)
       | Inr r \<Rightarrow>
      (case get_teams r of
         Inl e \<Rightarrow> Inl (Github e, events st)
       | Inr repo_team_names \<Rightarrow>
      (case check_repo_teams r allow_teams deny_teams repo_team_names of
         Inl e \<Rightarrow>
           if fail_fast then Inl (Raised e, events st)
           else Inr (st\<lparr>problems := problems st @ [e],
                         events := events st @ [Log ERROR (FailureMsg e)]\<rparr>)
       | Inr _ \<Rightarrow>
      (case has_ext_team ext_teams repo_team_names of
         Inl e \<Rightarrow> Inl (e, events st)
       | Inr ext \<Rightarrow>
           Inr (st\<lparr>results := dict_set (results st) pname
                   \<lparr>p_fields = pdata, p_repo = r, p_v = ext\<rparr>\<rparr>)))))))"

definition get_repo_for_products ::
  "organization \<Rightarrow> string dict dict \<Rightarrow> string list \<Rightarrow> string list option \<Rightarrow>
   string list option \<Rightarrow> bool \<Rightarrow> (error + (string \<times> product) list) \<times> event list" where
  "get_repo_for_products org products allow_teams ext_teams deny_teams fail_fast =
     (case for_each (resolve_body org allow_teams ext_teams deny_teams fail_fast) products
             \<lparr>results = [], problems = [], events = []\<rparr> of
        Inl (e, evs) \<Rightarrow> (Inl e, evs)
      | Inr st \<Rightarrow>
          if problems st \<noteq> [] then (Inl (DogpileError (problems st)), events st)
          else (Inr (results st), events st))"

section \<open>check_product_tags\<close>

text \<open>The tag template of a run (the keys \<open>name\<close>, \<open>message\<close> and \<open>tagger\<close>) and the
  target tag of a product, the template with the key \<open>sha\<close>.\<close>

record tag_template =
  tag_name :: string
  tag_message :: string
  tag_tagger :: author

record target_tag = tag_template +
  tag_sha :: string

text \<open>\<open>cmp_dict\<close>: the two dictionaries without the ignored keys are equal. Dictionaries
  have no duplicate keys, so they are equal when they hold the same pairs.\<close>

definition cmp_dict :: "string dict \<Rightarrow> string dict \<Rightarrow> string list \<Rightarrow> bool" where
  "cmp_dict d1 d2 ignore_keys =
     (set (filter (\<lambda>(k, x). k \<notin> set ignore_keys) d1) =
      set (filter (\<lambda>(k, x). k \<notin> set ignore_keys) d2))"

fun author_to_dict :: "author \<Rightarrow> error + string dict" where
  "author_to_dict (GitAuthor aname email date) = Inr [(''name'', aname), (''email'', email)]"
| "author_to_dict (InputGitAuthor identity) = Inr identity"
| "author_to_dict (OtherAuthor t) = Inl (UnsupportedType t)"

definition cmp_gitauthor :: "author \<Rightarrow> author \<Rightarrow> error + bool" where
  "cmp_gitauthor a b =
     and_then (author_to_dict a) (\<lambda>da.
     and_then (author_to_dict b) (\<lambda>db.
     Inr (cmp_dict da db [''date''])))"

text \<open>The conjunction is evaluated from the left: the taggers are compared only when the
  sha and the message agree.\<close>

definition cmp_existing_git_tag :: "target_tag \<Rightarrow> git_tag \<Rightarrow> error + bool" where
  "cmp_existing_git_tag t_tag e_tag =
     (if tag_sha t_tag = gt_object_sha e_tag \<and> tag_message t_tag = gt_message e_tag
      then cmp_gitauthor (tag_tagger t_tag) (gt_tagger e_tag)
      else Inr False)"

text \<open>\<open>check_existing_git_tag\<close> gives \<open>False\<close> when there is no tag of that name and \<open>True\<close>
  when the existing tag is in sync; otherwise it warns and raises \<open>GitTagExistsError\<close>.
  Exceptions of the platform and of the comparison pass through.\<close>

definition check_existing_git_tag :: "repo \<Rightarrow> target_tag \<Rightarrow> (error + bool) \<times> event list" where
  "check_existing_git_tag r t_tag =
     (case find_tag_by_name r (tag_name t_tag) True of
        Inl e \<Rightarrow> (Inl (Github e), [])
      | Inr None \<Rightarrow> (Inr False, [])
      | Inr (Some e_ref) \<Rightarrow>
          (case get_git_tag r (ref_object_sha e_ref) of
             Inl e \<Rightarrow> (Inl (Github e), [])
           | Inr e_tag \<Rightarrow>
               (case cmp_existing_git_tag t_tag e_tag of
                  Inl e \<Rightarrow> (Inl e, [])
                | Inr True \<Rightarrow> (Inr True, [])
                | Inr False \<Rightarrow>
                    (Inl (Raised (GitTagExistsError (gt_tag e_tag) (gt_sha e_tag))),
                     [Log WARN (ConflictingValues (tag_name t_tag)
                        (gt_sha e_tag) (gt_message e_tag) (gt_tagger e_tag)
                        (tag_sha t_tag) (tag_message t_tag) (tag_tagger t_tag))]))))"

text \<open>\<open>re.match('\d', s)\<close>: the string begins with a decimal digit. A \<open>char\<close> is a code
  point below 256, and the decimal digits among those are \<open>0\<close> to \<open>9\<close>.\<close>

definition match_digit :: "string \<Rightarrow> bool" where
  "match_digit s = (case s of [] \<Rightarrow> False | c # _ \<Rightarrow> c \<in> set ''0123456789'')"

text \<open>A checked product: the resolved product with the keys \<open>target_tag\<close> and
  \<open>update_tag\<close>.\<close>

record plan = product +
  p_target_tag :: target_tag
  p_update_tag :: bool

text \<open>Lines 411-417: the target tag of a product.\<close>

definition product_target_tag :: "tag_template \<Rightarrow> product \<Rightarrow> error + target_tag" where
  "product_target_tag template pdata =
     (case dict_get (p_fields pdata) ''sha'' of
        Inl e \<Rightarrow> Inl e
      | Inr sha \<Rightarrow>
          Inr \<lparr>tag_name = (if p_v pdata \<and> match_digit (tag_name template)
                            then CHR ''v'' # tag_name template else tag_name template),
               tag_message = tag_message template,
               tag_tagger = tag_tagger template,
               tag_sha = sha\<rparr>)"

text \<open>Lines 463-465: the entry of \<open>checked_products\<close>.\<close>

definition checked ::
  "string \<Rightarrow> product \<Rightarrow> target_tag \<Rightarrow> bool \<Rightarrow> (string \<times> plan) list pass \<Rightarrow> (string \<times> plan) list pass" where
  "checked pname pdata t_tag update_tag st =
     st\<lparr>results := dict_set (results st) pname
          \<lparr>p_fields = p_fields pdata, p_repo = p_repo pdata, p_v = p_v pdata,
           p_target_tag = t_tag, p_update_tag = update_tag\<rparr>\<rparr>"

text \<open>Lines 434-461, the handlers of the \<open>try\<close> block, in their order: the rate-limit
  exception is raised again; \<open>GitTagExistsError\<close> only warns under \<open>force_tag\<close> and falls
  through to the entry of \<open>checked_products\<close>, with \<open>update_tag\<close> as it is; any other
  exception of the platform is a \<open>CaughtRepositoryError\<close>; any other exception is not
  handled.\<close>

fun check_except ::
  "bool \<Rightarrow> bool \<Rightarrow> string \<Rightarrow> product \<Rightarrow> target_tag \<Rightarrow> bool \<Rightarrow> error \<Rightarrow>
   (string \<times> plan) list pass \<Rightarrow> (string \<times> plan) list pass raises" where
  "check_except force_tag fail_fast pname pdata t_tag update_tag
     (Github RateLimitExceededException) st =
     Inl (Github RateLimitExceededException, events st)"
| "check_except force_tag fail_fast pname pdata t_tag update_tag
     (Raised (GitTagExistsError tg sha)) st =
     (if force_tag then
        Inr (checked pname pdata t_tag update_tag
               (st\<lparr>events := events st @ [Log WARN (WillBeMoved (tag_name t_tag))]\<rparr>))
      else if fail_fast then Inl (Raised (GitTagExistsError tg sha), events st)
      else Inr (st\<lparr>problems := problems st @ [GitTagExistsError tg sha],
                    events := events st @ [Log ERROR (FailureMsg (GitTagExistsError tg sha))]\<rparr>))"
| "check_except force_tag fail_fast pname pdata t_tag update_tag (Github e) st =
     (let yikes = CaughtRepositoryError (full_name (p_repo pdata)) e in
      if fail_fast then Inl (Raised yikes, events st)
      else Inr (st\<lparr>problems := problems st @ [yikes],
                    events := events st @ [Log ERROR (FailureMsg yikes)]\<rparr>))"
| "check_except force_tag fail_fast pname pdata t_tag update_tag e st = Inl (e, events st)"

text \<open>Lines 411-465, the body of the loop. \<open>update_tag\<close> is set to \<open>False\<close> at line 420 and
  assigned nowhere else.\<close>

definition check_body ::
  "tag_template \<Rightarrow> bool \<Rightarrow> bool \<Rightarrow> string \<times> product \<Rightarrow>
   (string \<times> plan) list pass \<Rightarrow> (string \<times> plan) list pass raises" where
  "check_body template force_tag fail_fast item st =
     (case item of (pname, pdata) \<Rightarrow>
      (case product_target_tag template pdata of
         Inl e \<Rightarrow> Inl (e, events st)
       | Inr t_tag \<Rightarrow>
      (let update_tag = False in
       case check_existing_git_tag (p_repo pdata) t_tag of (res, evs) \<Rightarrow>
      (let st = st\<lparr>events := events st @ evs\<rparr> in
       case res of
         Inr True \<Rightarrow>
           Inr (st\<lparr>events := events st @
                  [Log WARN (NoAction (full_name (p_repo pdata)) (tag_name t_tag))]\<rparr>)
       | Inr False \<Rightarrow> Inr (checked pname pdata t_tag update_tag st)
       | Inl e \<Rightarrow> check_except force_tag fail_fast pname pdata t_tag update_tag e st))))"

definition check_product_tags ::
  "(string \<times> product) list \<Rightarrow> tag_template \<Rightarrow> bool \<Rightarrow> bool \<Rightarrow>
   (error + (string \<times> plan) list) \<times> event list" where
  "check_product_tags products template force_tag fail_fast =
     (case for_each (check_body template force_tag fail_fast) products
             \<lparr>results = [], problems = [], events = []\<rparr> of
        Inl (e, evs) \<Rightarrow> (Inl e, evs)
      | Inr st \<Rightarrow>
          if problems st \<noteq> [] then (Inl (DogpileError (problems st)), events st)
          else (Inr (results st), events st))"

section \<open>tag_products\<close>

text \<open>Lines 526-533, the handlers of the \<open>try\<close> block: the rate-limit exception is raised
  again; any other exception of the platform is a \<open>CaughtRepositoryError\<close>, raised under
  \<open>fail_fast\<close> and put on \<open>problems\<close> otherwise.\<close>

definition tag_failed :: "bool \<Rightarrow> repo \<Rightarrow> gh_error \<Rightarrow> unit pass \<Rightarrow> unit pass raises" where
  "tag_failed fail_fast r e st =
     (case e of
        RateLimitExceededException \<Rightarrow> Inl (Github RateLimitExceededException, events st)
      | _ \<Rightarrow>
          (let yikes = CaughtRepositoryError (full_name r) e in
           if fail_fast then Inl (Raised yikes, events st)
           else Inr (st\<lparr>problems := problems st @ [yikes],
                         events := events st @ [Log ERROR (FailureMsg yikes)]\<rparr>)))"

definition emit :: "event \<Rightarrow> unit pass \<Rightarrow> unit pass" where
  "emit ev st = st\<lparr>events := events st @ [ev]\<rparr>"

text \<open>Lines 481-533, the body of the loop. A request is recorded when it is sent, before
  the platform answers.\<close>

definition tag_body :: "bool \<Rightarrow> bool \<Rightarrow> string \<times> plan \<Rightarrow> unit pass \<Rightarrow> unit pass raises" where
  "tag_body fail_fast dry_run item st =
     (case item of (pname, pdata) \<Rightarrow>
      (let t_tag = p_target_tag pdata; r = p_repo pdata in
       case dict_get (p_fields pdata) ''eups_version'' of
         Inl e \<Rightarrow> Inl (e, events st)
       | Inr et \<Rightarrow>
      (let st = emit (Log INFO (TaggingRepo (full_name r) (tag_sha t_tag) (tag_name t_tag)
                         et (p_v pdata) (p_update_tag pdata))) st in
       if dry_run then Inr (emit (Log INFO Noop) st)
       else
      (let st = emit (Call (CreateGitTag (full_name r) (tag_name t_tag) (tag_message t_tag)
                        (tag_sha t_tag) ''commit'' (tag_tagger t_tag))) st in
       case create_git_tag r (tag_name t_tag) (tag_message t_tag) (tag_sha t_tag)
              ''commit'' (tag_tagger t_tag) of
         Inl e \<Rightarrow> tag_failed fail_fast r e st
       | Inr tag_obj \<Rightarrow>
           if p_update_tag pdata then
             (case find_tag_by_name r (tag_name t_tag) False of
                Inl e \<Rightarrow> tag_failed fail_fast r e st
              | Inr None \<Rightarrow> Inl (AttributeError, events st)
              | Inr (Some rf) \<Rightarrow>
                  (let st = emit (Call (EditRef (full_name r) (ref_path rf) (gt_sha tag_obj) True)) st in
                   case edit_git_ref r rf (gt_sha tag_obj) True of
                     Inl e \<Rightarrow> tag_failed fail_fast r e st
                   | Inr _ \<Rightarrow> Inr st))
           else
             (let st = emit (Call (CreateGitRef (full_name r) (''refs/tags/'' @ tag_name t_tag)
                               (gt_sha tag_obj))) st in
              case create_git_ref r (''refs/tags/'' @ tag_name t_tag) (gt_sha tag_obj) of
                Inl e \<Rightarrow> tag_failed fail_fast r e st
              | Inr _ \<Rightarrow> Inr st)))))"

definition tag_products ::
  "(string \<times> plan) list \<Rightarrow> bool \<Rightarrow> bool \<Rightarrow> (error + unit) \<times> event list" where
  "tag_products products fail_fast dry_run =
     (case for_each (tag_body fail_fast dry_run) products
             \<lparr>results = (), problems = [], events = []\<rparr> of
        Inl (e, evs) \<Rightarrow> (Inl e, evs)
      | Inr st \<Rightarrow>
          if problems st \<noteq> [] then (Inl (DogpileError (problems st)), events st)
          else (Inr (), events st))"

section \<open>run\<close>

text \<open>The options of the command line that the pipeline reads. \<open>--limit\<close>,
  \<open>--external-team\<close> and \<open>--deny-team\<close> are \<open>None\<close> when they are not given.\<close>

record args =
  arg_ignore_version :: bool
  arg_limit :: "int option"
  arg_allow_team :: "string list"
  arg_external_team :: "string list option"
  arg_deny_team :: "string list option"
  arg_force_tag :: bool
  arg_fail_fast :: bool
  arg_dry_run :: bool

text \<open>Lines 609-610: \<open>dict(itertools.islice(products.items(), args.limit))\<close> when the limit is
  neither \<open>None\<close> nor \<open>0\<close>; \<open>islice\<close> refuses a negative stop with \<open>ValueError\<close>.\<close>

definition apply_limit :: "int option \<Rightarrow> 'a dict \<Rightarrow> error + 'a dict" where
  "apply_limit lim products =
     (case lim of
        None \<Rightarrow> Inr products
      | Some n \<Rightarrow>
          if n = 0 then Inr products
          else if n < 0 then Inl ValueError
          else Inr (take (nat n) products))"

text \<open>Lines 601-634 of \<open>run\<close>: the four stages in order, each on the mapping the one before
  returned, the first exception ending the run. The products of the two version sources,
  the organization and the tag template are built by the lines before and are
  parameters. The first three stages are called with \<open>fail_fast=False\<close>.\<close>

definition run ::
  "args \<Rightarrow> string dict dict \<Rightarrow> string dict dict \<Rightarrow> organization \<Rightarrow> tag_template \<Rightarrow>
   (error + unit) \<times> event list" where
  "run a eups_products manifest_products org template =
     (case cross_reference_products eups_products manifest_products (arg_ignore_version a) False of
        (Inl e, evs1) \<Rightarrow> (Inl e, evs1)
      | (Inr products, evs1) \<Rightarrow>
     (case apply_limit (arg_limit a) products of
        Inl e \<Rightarrow> (Inl e, evs1)
      | Inr products \<Rightarrow>
     (case get_repo_for_products org products (arg_allow_team a) (arg_external_team a)
             (arg_deny_team a) False of
        (Inl e, evs2) \<Rightarrow> (Inl e, evs1 @ evs2)
      | (Inr products, evs2) \<Rightarrow>
     (case check_product_tags products template (arg_force_tag a) False of
        (Inl e, evs3) \<Rightarrow> (Inl e, evs1 @ evs2 @ evs3)
      | (Inr products_to_tag, evs3) \<Rightarrow>
     (case tag_products products_to_tag (arg_fail_fast a) (arg_dry_run a) of
        (res, evs4) \<Rightarrow> (res, evs1 @ evs2 @ evs3 @ evs4))))))"

section \<open>Reading the outcome of a stage\<close>

text \<open>The per-product failures that an exception carries: the failure itself when it is
  raised at once, the list of a \<open>DogpileError\<close>.\<close>

fun failures_of :: "error \<Rightarrow> failure list" where
  "failures_of (Raised f) = [f]"
| "failures_of (DogpileError fs) = fs"
| "failures_of e = []"

text \<open>The failure is the version mismatch of \<open>cross_reference_products\<close>.\<close>

definition is_mismatch :: "failure \<Rightarrow> bool" where
  "is_mismatch f = (case f of VersionMismatch pname ever mver \<Rightarrow> True | _ \<Rightarrow> False)"

text \<open>The existing tag of a product is in sync: the repository has a reference for the
  name of the product's target tag, and the tag object it points to has the commit sha,
  the message and the tagger identity (not the date) of the target tag.\<close>

definition in_sync :: "tag_template \<Rightarrow> product \<Rightarrow> bool" where
  "in_sync template pdata =
     (case product_target_tag template pdata of
        Inl e \<Rightarrow> False
      | Inr t_tag \<Rightarrow>
          (case tag_ref (p_repo pdata) (tag_name t_tag) of
             Inr (Some e_ref) \<Rightarrow>
               (case get_git_tag (p_repo pdata) (ref_object_sha e_ref) of
                  Inr e_tag \<Rightarrow>
                    gt_object_sha e_tag = tag_sha t_tag \<and>
                    gt_message e_tag = tag_message t_tag \<and>
                    cmp_gitauthor (tag_tagger t_tag) (gt_tagger e_tag) = Inr True
                | Inl e \<Rightarrow> False)
           | _ \<Rightarrow> False))"

text \<open>The failure wraps the rate-limit exception of the platform.\<close>

definition is_rate_limit :: "failure \<Rightarrow> bool" where
  "is_rate_limit f =
     (case f of CaughtRepositoryError r e \<Rightarrow> e = RateLimitExceededException | _ \<Rightarrow> False)"

text \<open>The platform answers one of the planner's queries for the product with the
  rate-limit exception: the search for the reference, or the fetch of the tag object.\<close>

definition check_rate_limited :: "tag_template \<Rightarrow> product \<Rightarrow> bool" where
  "check_rate_limited template pdata =
     (case product_target_tag template pdata of
        Inl e \<Rightarrow> False
      | Inr t_tag \<Rightarrow>
          (case tag_ref (p_repo pdata) (tag_name t_tag) of
             Inl e \<Rightarrow> e = RateLimitExceededException
           | Inr None \<Rightarrow> False
           | Inr (Some e_ref) \<Rightarrow>
               get_git_tag (p_repo pdata) (ref_object_sha e_ref) = Inl RateLimitExceededException))"

text \<open>The first exception, if any, with which the platform answers the requests that
  the applier sends for a plan, in the order it sends them.\<close>

definition tag_requests_error :: "plan \<Rightarrow> gh_error option" where
  "tag_requests_error pdata =
     (let t_tag = p_target_tag pdata; r = p_repo pdata in
      case create_git_tag r (tag_name t_tag) (tag_message t_tag) (tag_sha t_tag)
             ''commit'' (tag_tagger t_tag) of
        Inl e \<Rightarrow> Some e
      | Inr tag_obj \<Rightarrow>
          if p_update_tag pdata then
            (case tag_ref r (tag_name t_tag) of
               Inl e \<Rightarrow> Some e
             | Inr None \<Rightarrow> Some UnknownObjectException
             | Inr (Some rf) \<Rightarrow>
                 (case edit_git_ref r rf (gt_sha tag_obj) True of
                    Inl e \<Rightarrow> Some e
                  | Inr u \<Rightarrow> None))
          else
            (case create_git_ref r (''refs/tags/'' @ tag_name t_tag) (gt_sha tag_obj) of
               Inl e \<Rightarrow> Some e
             | Inr rf \<Rightarrow> None))"

text \<open>The event is a request that changes a repository.\<close>

definition is_call :: "event \<Rightarrow> bool" where
  "is_call ev = (case ev of Call c \<Rightarrow> True | Log l m \<Rightarrow> False)"

text \<open>A stage completes its pass when it returns or raises the aggregated error, which
  it builds after the loop.\<close>

definition completes :: "(error + 'a) \<times> event list \<Rightarrow> bool" where
  "completes outcome =
     (case fst outcome of
        Inr x \<Rightarrow> True
      | Inl (DogpileError fs) \<Rightarrow> True
      | Inl e \<Rightarrow> False)"

section \<open>Example inputs\<close>

text \<open>The tagger and the tag template that \<open>run\<close> builds for the tag \<open>w.2018.18\<close> and the
  manifest \<open>b3595\<close>.\<close>

definition sqre_tagger :: author where
  "sqre_tagger = InputGitAuthor
     [(''name'', ''sqre''), (''email'', ''sqre@lsst.org''), (''date'', ''2018-05-01T00:00:00Z'')]"

definition weekly_template :: tag_template where
  "weekly_template =
     \<lparr>tag_name = ''w.2018.18'',
      tag_message = ''Version w.2018.18 release from w.2018.18/b3595'',
      tag_tagger = sqre_tagger\<rparr>"

text \<open>A repository of the team Data Management that has the annotated tag \<open>w.2018.18\<close>,
  with the message and the tagger of the template, on the commit \<open>c\<close>. The platform
  makes the tag objects asked for, and refuses to create a reference that exists.\<close>

definition tagged_repo :: "string \<Rightarrow> repo" where
  "tagged_repo c =
     \<lparr>full_name = ''lsst/pkgA'',
      get_teams = Inr [''Data Management''],
      tag_ref = (\<lambda>n. if n = ''w.2018.18''
                 then Inr (Some \<lparr>ref_path = ''refs/tags/w.2018.18'', ref_object_sha = ''t0''\<rparr>)
                 else Inr None),
      get_git_tag = (\<lambda>s. if s = ''t0''
                 then Inr \<lparr>gt_sha = ''t0'', gt_tag = ''w.2018.18'',
                           gt_message = ''Version w.2018.18 release from w.2018.18/b3595'',
                           gt_tagger = GitAuthor ''sqre'' ''sqre@lsst.org'' ''2018-04-01T00:00:00Z'',
                           gt_object_sha = c\<rparr>
                 else Inl UnknownObjectException),
      create_git_tag = (\<lambda>n m s ty t.
                 Inr \<lparr>gt_sha = ''t1'', gt_tag = n, gt_message = m, gt_tagger = t,
                      gt_object_sha = s\<rparr>),
      create_git_ref = (\<lambda>p s. if p = ''refs/tags/w.2018.18'' then Inl GithubException
                 else Inr \<lparr>ref_path = p, ref_object_sha = s\<rparr>),
      edit_git_ref = (\<lambda>rf s force. Inr ())\<rparr>"

text \<open>The resolved product \<open>pkgA\<close> of the manifest, at the commit \<open>abc123\<close>, in a
  repository whose tag \<open>w.2018.18\<close> is on the commit \<open>c\<close>.\<close>

definition pkgA :: "string \<Rightarrow> product" where
  "pkgA c =
     \<lparr>p_fields = [(''eups_version'', ''w_2018_18''), (''sha'', ''abc123'')],
      p_repo = tagged_repo c, p_v = False\<rparr>"

text \<open>A repository for which the platform answers every request with the rate-limit
  exception, a resolved product in it, and the plan of a new tag for a product.\<close>

definition limited_repo :: repo where
  "limited_repo =
     \<lparr>full_name = ''lsst/pkgB'',
      get_teams = Inr [''Data Management''],
      tag_ref = (\<lambda>n. Inl RateLimitExceededException),
      get_git_tag = (\<lambda>s. Inl RateLimitExceededException),
      create_git_tag = (\<lambda>n m s ty t. Inl RateLimitExceededException),
      create_git_ref = (\<lambda>p s. Inl RateLimitExceededException),
      edit_git_ref = (\<lambda>rf s force. Inl RateLimitExceededException)\<rparr>"

definition pkgB :: product where
  "pkgB =
     \<lparr>p_fields = [(''eups_version'', ''w_2018_18''), (''sha'', ''def456'')],
      p_repo = limited_repo, p_v = False\<rparr>"

definition new_tag :: "product \<Rightarrow> plan" where
  "new_tag pdata =
     \<lparr>p_fields = p_fields pdata, p_repo = p_repo pdata, p_v = p_v pdata,
      p_target_tag = \<lparr>tag_name = ''w.2018.18'',
         tag_message = ''Version w.2018.18 release from w.2018.18/b3595'',
         tag_tagger = sqre_tagger, tag_sha = ''abc123''\<rparr>,
      p_update_tag = False\<rparr>"


section \<open>Evaluation\<close>

lemmas xref_defs = cross_reference_products_def xref_body_def xref_lookup_def xref_ignore_def
  xref_compare_def xref_merge_def and_then_def dict_get_def Let_def dict_update_def

lemmas resolve_defs = get_repo_for_products_def resolve_body_def check_repo_teams_def
  has_ext_team_def dict_get_def and_then_def Let_def

lemmas check_defs = check_product_tags_def check_body_def product_target_tag_def dict_get_def
  check_existing_git_tag_def find_tag_by_name_def cmp_existing_git_tag_def and_then_def
  checked_def Let_def match_digit_def cmp_gitauthor_def cmp_dict_def

lemmas tag_defs = tag_products_def tag_body_def tag_failed_def emit_def dict_get_def
  and_then_def Let_def find_tag_by_name_def

lemmas example_defs = sqre_tagger_def weekly_template_def tagged_repo_def pkgA_def

lemmas more_example_defs = limited_repo_def pkgB_def new_tag_def

section \<open>Loops and dictionaries\<close>

subsection \<open>Loops\<close>

lemma and_then_Inr [simp]: "and_then (Inr x) f = f x"
  by (simp add: and_then_def)

lemma and_then_Inl [simp]: "and_then (Inl e) f = Inl e"
  by (simp add: and_then_def)

lemma and_then_eq_Inr: "and_then m f = Inr y \<longleftrightarrow> (\<exists>x. m = Inr x \<and> f x = Inr y)"
  by (cases m) simp_all

lemma for_each_append:
  "for_each body (xs @ ys) st = and_then (for_each body xs st) (for_each body ys)"
proof (induction xs arbitrary: st)
  case Nil
  show ?case by simp
next
  case (Cons x xs)
  show ?case by (cases "body x st") (simp_all add: Cons.IH)
qed

lemma for_each_invariant:
  assumes step: "\<And>x s s'. x \<in> set xs \<Longrightarrow> P s \<Longrightarrow> body x s = Inr s' \<Longrightarrow> P s'"
    and fails: "\<And>x s e. x \<in> set xs \<Longrightarrow> P s \<Longrightarrow> body x s = Inl e \<Longrightarrow> Q e"
    and init: "P st"
  shows "case for_each body xs st of Inr s' \<Rightarrow> P s' | Inl e \<Rightarrow> Q e"
  using assms
proof (induction xs arbitrary: st)
  case Nil
  then show ?case by simp
next
  case (Cons x xs)
  show ?case
  proof (cases "body x st")
    case (Inl e)
    with Cons.prems(2)[of x st e] Cons.prems(3) show ?thesis by simp
  next
    case (Inr s1)
    have "P s1" using Cons.prems(1)[of x st s1] Cons.prems(3) Inr by simp
    moreover have "\<And>y s s'. y \<in> set xs \<Longrightarrow> P s \<Longrightarrow> body y s = Inr s' \<Longrightarrow> P s'"
      using Cons.prems(1) by (meson list.set_intros(2))
    moreover have "\<And>y s e. y \<in> set xs \<Longrightarrow> P s \<Longrightarrow> body y s = Inl e \<Longrightarrow> Q e"
      using Cons.prems(2) by (meson list.set_intros(2))
    ultimately have "case for_each body xs s1 of Inr s' \<Rightarrow> P s' | Inl e \<Rightarrow> Q e"
      by (rule Cons.IH[rotated 2])
    with Inr show ?thesis by simp
  qed
qed

lemma for_each_visits:
  assumes "for_each body (xs @ x # ys) st = Inr st'"
  shows "\<exists>s1 s2. for_each body xs st = Inr s1 \<and> body x s1 = Inr s2 \<and> for_each body ys s2 = Inr st'"
  using assms by (auto simp: for_each_append and_then_eq_Inr)

lemma for_each_raises:
  assumes "for_each body xs st = Inr s1" and "body x s1 = Inl e"
  shows "for_each body (xs @ x # ys) st = Inl e"
  using assms by (simp add: for_each_append)

subsection \<open>Dictionaries\<close>

lemma map_of_dict_set_at:
  "map_of (dict_set d k x) k' = (if k' = k then Some x else map_of d k')"
  by (induction d) auto

lemma map_of_dict_set: "map_of (dict_set d k x) = (map_of d)(k \<mapsto> x)"
  by (rule ext) (simp add: map_of_dict_set_at)

lemma keys_dict_set:
  "map fst (dict_set d k x) = (if k \<in> set (map fst d) then map fst d else map fst d @ [k])"
  by (induction d) force+

lemma distinct_dict_set: "distinct (map fst d) \<Longrightarrow> distinct (map fst (dict_set d k x))"
  by (simp add: keys_dict_set)

lemma map_of_fold_dict_set:
  "distinct (map fst other) \<Longrightarrow>
   map_of (fold (\<lambda>(k, x) acc. dict_set acc k x) other d) = map_of d ++ map_of other"
proof (induction other arbitrary: d)
  case Nil
  show ?case by simp
next
  case (Cons p other)
  obtain k x where p: "p = (k, x)" by (cases p)
  from Cons.prems p have k: "k \<notin> fst ` set other" and d: "distinct (map fst other)" by auto
  from k have none: "map_of other k = None" by (simp add: map_of_eq_None_iff)
  have "map_of (fold (\<lambda>(k, x) acc. dict_set acc k x) (p # other) d) =
        map_of (dict_set d k x) ++ map_of other"
    using Cons.IH[OF d, of "dict_set d k x"] p by simp
  also have "\<dots> = (map_of d)(k \<mapsto> x) ++ map_of other"
    by (simp only: map_of_dict_set)
  also have "\<dots> = map_of d ++ map_of (p # other)"
  proof (rule ext)
    fix k'
    show "((map_of d)(k \<mapsto> x) ++ map_of other) k' = (map_of d ++ map_of (p # other)) k'"
      using none p by (cases "k' = k") (simp_all add: map_add_def split: option.splits)
  qed
  finally show ?case .
qed

lemma map_of_dict_update:
  "distinct (map fst other) \<Longrightarrow> map_of (dict_update d other) = map_of d ++ map_of other"
  by (simp add: dict_update_def map_of_fold_dict_set)

lemma dict_get_eq_Inr: "dict_get d k = Inr x \<longleftrightarrow> map_of d k = Some x"
  by (simp add: dict_get_def split: option.splits)

lemma dict_entry_once:
  assumes "distinct (map fst d)" and "map_of d k = Some x"
  shows "length (filter (\<lambda>(k', x'). k' = k) d) = 1"
  using assms
proof (induction d)
  case Nil
  then show ?case by simp
next
  case (Cons p d)
  obtain k' x' where p: "p = (k', x')" by (cases p)
  show ?case
  proof (cases "k' = k")
    case True
    with Cons.prems p have "k \<notin> fst ` set d" by auto
    then have "filter (\<lambda>(k', x'). k' = k) d = []"
      by (force simp: filter_empty_conv)
    with True p show ?thesis by simp
  next
    case False
    with Cons p show ?thesis by simp
  qed
qed

section \<open>The cross-reference loop\<close>

lemmas xref_body_defs = xref_body_def xref_lookup_def xref_ignore_def xref_compare_def
  xref_merge_def and_then_def Let_def

lemma xref_body_problems:
  assumes "xref_body mp iv ff x st = Inr st'"
  shows "\<exists>fs. problems st' = problems st @ fs"
  using assms
  by (cases x) (auto simp: xref_body_defs split: option.splits sum.splits if_splits)

lemma xref_body_results:
  assumes "xref_body mp iv ff (n, e) st = Inr st'"
  shows "\<exists>r. results st' = dict_set (results st) n r"
  using assms
  by (auto simp: xref_body_defs split: option.splits sum.splits if_splits)

lemma xref_body_merged:
  assumes "xref_body mp iv ff (n, e) st = Inr st'" and "problems st' = []"
  shows "\<exists>m t. map_of mp n = Some m \<and> map_of e ''eups_version'' = Some t \<and>
           map_of (if iv then dict_set m ''eups_version'' t else m) ''eups_version'' = Some t \<and>
           results st' =
             dict_set (results st) n (dict_update e (if iv then dict_set m ''eups_version'' t else m))"
  using assms
  by (auto simp: xref_body_defs dict_get_eq_Inr map_of_dict_set_at split: option.splits sum.splits if_splits)


lemma xref_loop_problems:
  "for_each (xref_body mp iv ff) xs st = Inr st' \<Longrightarrow> \<exists>fs. problems st' = problems st @ fs"
proof (induction xs arbitrary: st)
  case Nil
  then show ?case by simp
next
  case (Cons x xs)
  then obtain s1 where s1: "xref_body mp iv ff x st = Inr s1"
    and rest: "for_each (xref_body mp iv ff) xs s1 = Inr st'"
    by (auto simp: and_then_eq_Inr)
  from xref_body_problems[OF s1] Cons.IH[OF rest] show ?case by auto
qed

lemma xref_loop_keeps:
  "for_each (xref_body mp iv ff) xs st = Inr st' \<Longrightarrow> n \<notin> fst ` set xs \<Longrightarrow>
   map_of (results st') n = map_of (results st) n"
proof (induction xs arbitrary: st)
  case Nil
  then show ?case by simp
next
  case (Cons x xs)
  obtain k e where x: "x = (k, e)" by (cases x)
  from Cons.prems obtain s1 where s1: "xref_body mp iv ff (k, e) st = Inr s1"
    and rest: "for_each (xref_body mp iv ff) xs s1 = Inr st'"
    by (auto simp: and_then_eq_Inr x)
  from Cons.prems x have "k \<noteq> n" and "n \<notin> fst ` set xs" by auto
  with xref_body_results[OF s1] Cons.IH[OF rest] show ?case
    by (auto simp: map_of_dict_set_at)
qed

lemma xref_loop_distinct:
  "for_each (xref_body mp iv ff) xs st = Inr st' \<Longrightarrow> distinct (map fst (results st)) \<Longrightarrow>
   distinct (map fst (results st'))"
proof (induction xs arbitrary: st)
  case Nil
  then show ?case by simp
next
  case (Cons x xs)
  obtain k e where x: "x = (k, e)" by (cases x)
  from Cons.prems obtain s1 where s1: "xref_body mp iv ff (k, e) st = Inr s1"
    and rest: "for_each (xref_body mp iv ff) xs s1 = Inr st'"
    by (auto simp: and_then_eq_Inr x)
  from xref_body_results[OF s1] Cons.prems(2) have "distinct (map fst (results s1))"
    by (auto simp: distinct_dict_set)
  with Cons.IH[OF rest] show ?case .
qed

lemma xref_loop_merged:
  assumes "for_each (xref_body mp iv ff) xs st = Inr st'" and "problems st' = []"
    and "distinct (map fst xs)" and "(n, e) \<in> set xs"
  shows "\<exists>m t. map_of mp n = Some m \<and> map_of e ''eups_version'' = Some t \<and>
           map_of (if iv then dict_set m ''eups_version'' t else m) ''eups_version'' = Some t \<and>
           map_of (results st') n =
             Some (dict_update e (if iv then dict_set m ''eups_version'' t else m))"
  using assms
proof (induction xs arbitrary: st)
  case Nil
  then show ?case by simp
next
  case (Cons x xs)
  obtain k d where x: "x = (k, d)" by (cases x)
  from Cons.prems(1) obtain s1 where s1: "xref_body mp iv ff (k, d) st = Inr s1"
    and rest: "for_each (xref_body mp iv ff) xs s1 = Inr st'"
    by (auto simp: and_then_eq_Inr x)
  show ?case
  proof (cases "(n, e) = x")
    case True
    from xref_loop_problems[OF rest] Cons.prems(2) have "problems s1 = []" by auto
    from xref_body_merged[OF s1 this] obtain m t where
      m: "map_of mp k = Some m" "map_of d ''eups_version'' = Some t"
         "map_of (if iv then dict_set m ''eups_version'' t else m) ''eups_version'' = Some t"
      and r: "results s1 =
         dict_set (results st) k (dict_update d (if iv then dict_set m ''eups_version'' t else m))"
      by blast
    from Cons.prems(3) x have "k \<notin> fst ` set xs" by auto
    from xref_loop_keeps[OF rest this] r
    have "map_of (results st') k =
       Some (dict_update d (if iv then dict_set m ''eups_version'' t else m))"
      by (simp add: map_of_dict_set_at)
    with m True x show ?thesis by auto
  next
    case False
    with Cons.prems(4) have "(n, e) \<in> set xs" by auto
    moreover from Cons.prems(3) have "distinct (map fst xs)" by simp
    ultimately show ?thesis using Cons.IH[OF rest Cons.prems(2)] by blast
  qed
qed

lemma xref_body_present:
  assumes "map_of mp n = Some m" and "map_of e ''eups_version'' = Some t"
    and "iv \<or> map_of m ''eups_version'' = Some t"
  shows "\<exists>st'. xref_body mp iv ff (n, e) st = Inr st' \<and> problems st' = problems st \<and>
           events st' = events st"
  using assms
  by (auto simp: xref_body_defs dict_get_def map_of_dict_set_at split: option.splits)

lemma xref_loop_present:
  assumes "\<forall>(n, e) \<in> set xs. \<exists>m t. map_of mp n = Some m \<and> map_of e ''eups_version'' = Some t \<and>
             (iv \<or> map_of m ''eups_version'' = Some t)"
  shows "\<exists>st'. for_each (xref_body mp iv ff) xs st = Inr st' \<and> problems st' = problems st \<and>
           events st' = events st"
  using assms
proof (induction xs arbitrary: st)
  case Nil
  show ?case by simp
next
  case (Cons x xs)
  obtain n e where x: "x = (n, e)" by (cases x)
  from Cons.prems x obtain m t where "map_of mp n = Some m" "map_of e ''eups_version'' = Some t"
    "iv \<or> map_of m ''eups_version'' = Some t" by auto
  from xref_body_present[OF this, of ff st] obtain s1 where
    s1: "xref_body mp iv ff (n, e) st = Inr s1" "problems s1 = problems st" "events s1 = events st"
    by blast
  from Cons.prems have "\<forall>(n, e) \<in> set xs. \<exists>m t. map_of mp n = Some m \<and>
      map_of e ''eups_version'' = Some t \<and> (iv \<or> map_of m ''eups_version'' = Some t)" by simp
  from Cons.IH[OF this, of s1] s1 x show ?case by auto
qed


lemma dict_set_same: "map_of d k = Some x \<Longrightarrow> dict_set d k x = d"
  by (induction d) (auto split: if_splits)

lemma cross_reference_Inr:
  assumes "cross_reference_products eups man iv ff = (Inr products, evs)"
  shows "\<exists>st'. for_each (xref_body man iv ff) eups
            \<lparr>results = [], problems = [], events = [], manifest_data = None\<rparr> = Inr st' \<and>
          problems st' = [] \<and> results st' = products \<and> events st' = evs"
  using assms
  by (auto simp: cross_reference_products_def split: sum.splits if_splits prod.splits)

lemma xref_body_no_mismatch:
  assumes "xref_body mp True ff x st = Inr st'" and "\<forall>f \<in> set (problems st). \<not> is_mismatch f"
  shows "\<forall>f \<in> set (problems st'). \<not> is_mismatch f"
  using assms
  by (cases x)
     (auto simp: xref_body_defs dict_get_def map_of_dict_set_at is_mismatch_def
           split: option.splits sum.splits if_splits)

lemma xref_body_raises_no_mismatch:
  assumes "xref_body mp True ff x st = Inl (err, evs)"
  shows "\<forall>f \<in> set (failures_of err). \<not> is_mismatch f"
  using assms
  by (cases x)
     (auto simp: xref_body_defs dict_get_def map_of_dict_set_at is_mismatch_def
           split: option.splits sum.splits if_splits)

lemma xref_loop_no_mismatch:
  "case for_each (xref_body mp True ff) xs
          \<lparr>results = [], problems = [], events = [], manifest_data = None\<rparr> of
     Inr st' \<Rightarrow> \<forall>f \<in> set (problems st'). \<not> is_mismatch f
   | Inl e \<Rightarrow> \<forall>f \<in> set (failures_of (fst e)). \<not> is_mismatch f"
proof (rule for_each_invariant)
  fix x st st'
  assume "\<forall>f \<in> set (problems st). \<not> is_mismatch f" "xref_body mp True ff x st = Inr st'"
  then show "\<forall>f \<in> set (problems st'). \<not> is_mismatch f"
    using xref_body_no_mismatch by blast
next
  fix x st e
  assume "xref_body mp True ff x st = Inl e"
  then show "\<forall>f \<in> set (failures_of (fst e)). \<not> is_mismatch f"
    using xref_body_raises_no_mismatch[of mp ff x st "fst e" "snd e"] by simp
next
  show "\<forall>f \<in> set (problems \<lparr>results = [], problems = [], events = [],
          manifest_data = None\<rparr>). \<not> is_mismatch f" by simp
qed

section \<open>The planner's loop\<close>

lemma set_dict_set: "set (dict_set d k x) \<subseteq> insert (k, x) (set d)"
  by (induction d) (auto split: if_splits)

lemma check_except_Inr:
  assumes "check_except force ff n d t u e st = Inr st'"
  shows "(results st' = results st \<or>
          results st' = dict_set (results st) n
            \<lparr>p_fields = p_fields d, p_repo = p_repo d, p_v = p_v d,
             p_target_tag = t, p_update_tag = u\<rparr>) \<and>
         (\<forall>f \<in> set (problems st'). f \<in> set (problems st) \<or> \<not> is_rate_limit f)"
  using assms
  by (cases "(force, ff, n, d, t, u, e, st)" rule: check_except.cases)
     (auto simp: checked_def Let_def is_rate_limit_def split: if_splits)

lemma author_to_dict_Inl: "author_to_dict a = Inl e \<Longrightarrow> \<exists>c. e = UnsupportedType c"
  by (cases a) auto

lemma cmp_gitauthor_Inl: "cmp_gitauthor a b = Inl e \<Longrightarrow> \<exists>c. e = UnsupportedType c"
  by (auto simp: cmp_gitauthor_def and_then_def split: sum.splits dest: author_to_dict_Inl)

lemma check_existing_errors:
  assumes "check_existing_git_tag r t = (Inl e, evs)"
  shows "(\<exists>g. e = Github g) \<or> (\<exists>tg sha. e = Raised (GitTagExistsError tg sha)) \<or>
         (\<exists>c. e = UnsupportedType c)"
  using assms
  by (auto simp: check_existing_git_tag_def cmp_existing_git_tag_def
        split: sum.splits option.splits if_splits bool.splits dest: cmp_gitauthor_Inl)

lemma check_except_Inl:
  assumes "check_except force ff n d t u e st = Inl (err, evs)"
    and "(\<exists>g. e = Github g) \<or> (\<exists>tg sha. e = Raised (GitTagExistsError tg sha)) \<or>
         (\<exists>c. e = UnsupportedType c)"
  shows "(\<forall>fs. err \<noteq> DogpileError fs) \<and> (\<forall>f \<in> set (failures_of err). \<not> is_rate_limit f) \<and>
         (\<not> ff \<longrightarrow> (\<forall>f. err \<noteq> Raised f))"
  using assms
  by (cases "(force, ff, n, d, t, u, e, st)" rule: check_except.cases)
     (auto simp: Let_def is_rate_limit_def split: if_splits)

lemma check_body_Inr:
  assumes "check_body template force ff (n, d) st = Inr st'"
  shows "\<exists>t. product_target_tag template d = Inr t \<and>
           (results st' = results st \<or>
            results st' = dict_set (results st) n
              \<lparr>p_fields = p_fields d, p_repo = p_repo d, p_v = p_v d,
               p_target_tag = t, p_update_tag = False\<rparr>) \<and>
           (\<forall>f \<in> set (problems st'). f \<in> set (problems st) \<or> \<not> is_rate_limit f)"
  using assms
  by (auto simp: check_body_def checked_def Let_def
        split: sum.splits prod.splits bool.splits dest!: check_except_Inr)

lemma check_body_Inl:
  assumes "check_body template force ff x st = Inl (err, evs)"
  shows "(\<forall>fs. err \<noteq> DogpileError fs) \<and> (\<forall>f \<in> set (failures_of err). \<not> is_rate_limit f) \<and>
         (\<not> ff \<longrightarrow> (\<forall>f. err \<noteq> Raised f))"
proof -
  obtain n d where x: "x = (n, d)" by (cases x)
  show ?thesis
  proof (cases "product_target_tag template d")
    case (Inl e)
    with assms x show ?thesis
      by (auto simp: check_body_def product_target_tag_def dict_get_def split: option.splits)
  next
    case (Inr t)
    obtain res evs' where ce: "check_existing_git_tag (p_repo d) t = (res, evs')"
      by (cases "check_existing_git_tag (p_repo d) t")
    show ?thesis
    proof (cases res)
      case (Inl e)
      with assms x Inr ce
      have "check_except force ff n d t False e (st\<lparr>events := events st @ evs'\<rparr>) = Inl (err, evs)"
        by (simp add: check_body_def Let_def)
      moreover from ce Inl have "(\<exists>g. e = Github g) \<or>
          (\<exists>tg sha. e = Raised (GitTagExistsError tg sha)) \<or> (\<exists>c. e = UnsupportedType c)"
        by (auto dest: check_existing_errors)
      ultimately show ?thesis by (rule check_except_Inl)
    next
      case (Inr b)
      with assms x \<open>product_target_tag template d = Inr t\<close> ce show ?thesis
        by (simp add: check_body_def Let_def split: bool.splits)
    qed
  qed
qed

lemma check_body_in_sync:
  assumes "in_sync template d"
  shows "\<exists>t. product_target_tag template d = Inr t \<and>
           check_body template force ff (n, d) st =
             Inr (st\<lparr>events := events st @
                    [Log WARN (NoAction (full_name (p_repo d)) (tag_name t))]\<rparr>)"
  using assms
  by (auto simp: in_sync_def check_body_def check_existing_git_tag_def find_tag_by_name_def
        cmp_existing_git_tag_def Let_def split: sum.splits option.splits)

lemma check_body_rate_limited:
  assumes "check_rate_limited template d"
  shows "check_body template force ff (n, d) st =
           Inl (Github RateLimitExceededException, events st)"
  using assms
  by (auto simp: check_rate_limited_def check_body_def check_existing_git_tag_def
        find_tag_by_name_def Let_def split: sum.splits option.splits)


lemma check_loop_keeps:
  assumes "for_each (check_body template force ff) xs st = Inr st'"
    and "\<forall>(k, d) \<in> set xs. k = n \<longrightarrow> in_sync template d"
  shows "map_of (results st') n = map_of (results st) n"
  using assms
proof (induction xs arbitrary: st)
  case Nil
  then show ?case by simp
next
  case (Cons x xs)
  obtain k d where x: "x = (k, d)" by (cases x)
  from Cons.prems(1) obtain s1 where s1: "check_body template force ff (k, d) st = Inr s1"
    and rest: "for_each (check_body template force ff) xs s1 = Inr st'"
    by (auto simp: and_then_eq_Inr x)
  from Cons.prems(2) have later: "\<forall>(k, d) \<in> set xs. k = n \<longrightarrow> in_sync template d" by simp
  have "map_of (results s1) n = map_of (results st) n"
  proof (cases "k = n")
    case True
    with Cons.prems(2) x have "in_sync template d" by simp
    from check_body_in_sync[OF this, of force ff k st] s1 show ?thesis by auto
  next
    case False
    with check_body_Inr[OF s1] show ?thesis by (auto simp: map_of_dict_set_at)
  qed
  with Cons.IH[OF rest later] show ?case by simp
qed

lemma check_loop_all_in_sync:
  assumes "\<forall>(k, d) \<in> set xs. in_sync template d"
  shows "\<exists>st'. for_each (check_body template force ff) xs st = Inr st' \<and>
           results st' = results st \<and> problems st' = problems st \<and>
           (\<forall>ev \<in> set (events st'). ev \<in> set (events st) \<or> (\<exists>r t. ev = Log WARN (NoAction r t)))"
  using assms
proof (induction xs arbitrary: st)
  case Nil
  show ?case by simp
next
  case (Cons x xs)
  obtain k d where x: "x = (k, d)" by (cases x)
  from Cons.prems x have "in_sync template d" by simp
  from check_body_in_sync[OF this, of force ff k st] obtain t where
    t: "product_target_tag template d = Inr t" and
    s1: "check_body template force ff (k, d) st =
           Inr (st\<lparr>events := events st @ [Log WARN (NoAction (full_name (p_repo d)) (tag_name t))]\<rparr>)"
    by (elim exE conjE)
  from Cons.prems have "\<forall>(k, d) \<in> set xs. in_sync template d" by simp
  from Cons.IH[OF this,
      of "st\<lparr>events := events st @ [Log WARN (NoAction (full_name (p_repo d)) (tag_name t))]\<rparr>"]
  show ?case using s1 x by auto
qed

lemma check_loop_entries:
  "case for_each (check_body template force ff) products \<lparr>results = [], problems = [], events = []\<rparr> of
     Inr st' \<Rightarrow>
       \<forall>(k, pl) \<in> set (results st'). \<exists>d t. (k, d) \<in> set products \<and>
          product_target_tag template d = Inr t \<and>
          pl = \<lparr>p_fields = p_fields d, p_repo = p_repo d, p_v = p_v d,
                p_target_tag = t, p_update_tag = False\<rparr>
   | Inl e \<Rightarrow> True"
proof (rule for_each_invariant)
  fix x st st'
  assume x: "x \<in> set products"
    and inv: "\<forall>(k, pl) \<in> set (results st). \<exists>d t. (k, d) \<in> set products \<and>
          product_target_tag template d = Inr t \<and>
          pl = \<lparr>p_fields = p_fields d, p_repo = p_repo d, p_v = p_v d,
                p_target_tag = t, p_update_tag = False\<rparr>"
    and body: "check_body template force ff x st = Inr st'"
  obtain n d where nd: "x = (n, d)" by (cases x)
  from check_body_Inr[OF body[unfolded nd]] obtain t where
    t: "product_target_tag template d = Inr t"
    and r: "results st' = results st \<or>
            results st' = dict_set (results st) n
              \<lparr>p_fields = p_fields d, p_repo = p_repo d, p_v = p_v d,
               p_target_tag = t, p_update_tag = False\<rparr>"
    by blast
  from r show "\<forall>(k, pl) \<in> set (results st'). \<exists>d t. (k, d) \<in> set products \<and>
          product_target_tag template d = Inr t \<and>
          pl = \<lparr>p_fields = p_fields d, p_repo = p_repo d, p_v = p_v d,
                p_target_tag = t, p_update_tag = False\<rparr>"
  proof
    assume "results st' = results st"
    with inv show ?thesis by simp
  next
    assume new: "results st' = dict_set (results st) n
              \<lparr>p_fields = p_fields d, p_repo = p_repo d, p_v = p_v d,
               p_target_tag = t, p_update_tag = False\<rparr>"
    show ?thesis
    proof (clarify)
      fix k pl
      assume "(k, pl) \<in> set (results st')"
      with new set_dict_set[of "results st" n] have
        "(k, pl) = (n, \<lparr>p_fields = p_fields d, p_repo = p_repo d, p_v = p_v d,
               p_target_tag = t, p_update_tag = False\<rparr>) \<or> (k, pl) \<in> set (results st)"
        by auto
      then show "\<exists>d t. (k, d) \<in> set products \<and>
          product_target_tag template d = Inr t \<and>
          pl = \<lparr>p_fields = p_fields d, p_repo = p_repo d, p_v = p_v d,
                p_target_tag = t, p_update_tag = False\<rparr>"
      proof
        assume "(k, pl) = (n, \<lparr>p_fields = p_fields d, p_repo = p_repo d, p_v = p_v d,
               p_target_tag = t, p_update_tag = False\<rparr>)"
        with x nd t show ?thesis by auto
      next
        assume "(k, pl) \<in> set (results st)"
        with inv show ?thesis by auto
      qed
    qed
  qed
next
  fix x st e
  show True ..
next
  show "\<forall>(k, pl) \<in> set (results \<lparr>results = [], problems = [], events = []\<rparr>).
     \<exists>d t. (k, d) \<in> set products \<and> product_target_tag template d = Inr t \<and>
          pl = \<lparr>p_fields = p_fields d, p_repo = p_repo d, p_v = p_v d,
                p_target_tag = t, p_update_tag = False\<rparr>"
    by simp
qed

lemma check_product_tags_Inr:
  assumes "check_product_tags products template force ff = (Inr plans, evs)"
  shows "\<exists>st'. for_each (check_body template force ff) products
            \<lparr>results = [], problems = [], events = []\<rparr> = Inr st' \<and>
          problems st' = [] \<and> results st' = plans \<and> events st' = evs"
  using assms
  by (auto simp: check_product_tags_def split: sum.splits if_splits prod.splits)

lemma check_product_tags_entries:
  assumes "check_product_tags products template force ff = (Inr plans, evs)"
    and "(k, pl) \<in> set plans"
  shows "\<exists>d t. (k, d) \<in> set products \<and> product_target_tag template d = Inr t \<and>
          pl = \<lparr>p_fields = p_fields d, p_repo = p_repo d, p_v = p_v d,
                p_target_tag = t, p_update_tag = False\<rparr>"
proof -
  from check_product_tags_Inr[OF assms(1)] obtain st' where
    "for_each (check_body template force ff) products
            \<lparr>results = [], problems = [], events = []\<rparr> = Inr st'" "results st' = plans"
    by blast
  with check_loop_entries[where template=template and force=force and ff=ff and products=products]
    assms(2) show ?thesis by auto
qed

lemma check_product_tags_update_tag:
  assumes "check_product_tags products template force ff = (Inr plans, evs)"
    and "(k, pl) \<in> set plans"
  shows "p_update_tag pl = False"
  using check_product_tags_entries[OF assms] by auto


section \<open>The applier's loop\<close>

lemma tag_failed_Inr:
  "tag_failed ff r e st = Inr st' \<Longrightarrow>
   \<not> ff \<and> e \<noteq> RateLimitExceededException \<and>
   st' = st\<lparr>problems := problems st @ [CaughtRepositoryError (full_name r) e],
            events := events st @ [Log ERROR (FailureMsg (CaughtRepositoryError (full_name r) e))]\<rparr>"
  by (cases e) (auto simp: tag_failed_def Let_def split: if_splits)

lemma tag_failed_Inl:
  "tag_failed ff r e st = Inl (err, evs) \<Longrightarrow>
   evs = events st \<and>
   (if e = RateLimitExceededException then err = Github RateLimitExceededException
    else ff \<and> err = Raised (CaughtRepositoryError (full_name r) e))"
  by (cases e) (auto simp: tag_failed_def Let_def split: if_splits)

lemma tag_body_dry_run:
  assumes "map_of (p_fields pl) ''eups_version'' = Some et"
  shows "tag_body ff True (n, pl) st =
     Inr (st\<lparr>events := events st @
        [Log INFO (TaggingRepo (full_name (p_repo pl)) (tag_sha (p_target_tag pl))
           (tag_name (p_target_tag pl)) et (p_v pl) (p_update_tag pl)),
         Log INFO Noop]\<rparr>)"
  using assms by (simp add: tag_body_def dict_get_def emit_def Let_def)

lemma tag_body_dry_run_calls:
  assumes "\<forall>ev \<in> set (events st). \<not> is_call ev"
  shows "case tag_body ff True x st of
           Inr st' \<Rightarrow> \<forall>ev \<in> set (events st'). \<not> is_call ev
         | Inl e \<Rightarrow> \<forall>ev \<in> set (snd e). \<not> is_call ev"
  using assms
  by (cases x)
     (auto simp: tag_body_def dict_get_def emit_def Let_def is_call_def split: option.splits)

lemma tag_body_Inr:
  assumes "tag_body ff dry x st = Inr st'"
  shows "\<forall>f \<in> set (problems st'). f \<in> set (problems st) \<or> \<not> is_rate_limit f"
  using assms
  by (cases x)
     (auto simp: tag_body_def dict_get_def emit_def Let_def is_rate_limit_def
           split: option.splits sum.splits if_splits dest!: tag_failed_Inr)

lemma tag_body_Inl:
  assumes "tag_body ff dry x st = Inl (err, evs)"
  shows "(\<forall>fs. err \<noteq> DogpileError fs) \<and> (\<forall>f \<in> set (failures_of err). \<not> is_rate_limit f) \<and>
         (\<forall>f. err = Raised f \<longrightarrow> ff \<and> \<not> dry \<and>
            (\<exists>r e. f = CaughtRepositoryError r e \<and> e \<noteq> RateLimitExceededException))"
  using assms
  by (cases x)
     (auto simp: tag_body_def dict_get_def emit_def Let_def is_rate_limit_def
           split: option.splits sum.splits if_splits dest!: tag_failed_Inl)

lemma tag_body_requests_error:
  assumes "map_of (p_fields pl) ''eups_version'' = Some et"
    and "tag_requests_error pl = Some e"
  shows "\<exists>evs. tag_body ff False (n, pl) st =
           (if e = RateLimitExceededException then Inl (Github RateLimitExceededException, evs)
            else if ff then Inl (Raised (CaughtRepositoryError (full_name (p_repo pl)) e), evs)
            else Inr (st\<lparr>problems := problems st @ [CaughtRepositoryError (full_name (p_repo pl)) e],
                       events := evs\<rparr>))"
proof (cases ff)
  case True
  with assms show ?thesis
    by (cases e)
       (auto simp: tag_body_def tag_requests_error_def find_tag_by_name_def dict_get_def emit_def
             tag_failed_def Let_def split: option.splits sum.splits if_splits)
next
  case False
  with assms show ?thesis
    by (cases e)
       (auto simp: tag_body_def tag_requests_error_def find_tag_by_name_def dict_get_def emit_def
             tag_failed_def Let_def split: option.splits sum.splits if_splits)
qed

section \<open>Stages and their loops\<close>

lemma for_each_not_dogpile:
  assumes "\<And>x s e evs. body x s = Inl (e, evs) \<Longrightarrow> \<forall>fs. e \<noteq> DogpileError fs"
    and "for_each body xs st = Inl (e, evs)"
  shows "\<forall>fs. e \<noteq> DogpileError fs"
proof -
  have "case for_each body xs st of Inr s' \<Rightarrow> True | Inl e \<Rightarrow> \<forall>fs. fst e \<noteq> DogpileError fs"
  proof (rule for_each_invariant[where P = "\<lambda>s. True"])
    fix x s e
    assume "body x s = Inl e"
    with assms(1)[of x s "fst e" "snd e"] show "\<forall>fs. fst e \<noteq> DogpileError fs" by simp
  qed simp_all
  with assms(2) show ?thesis by simp
qed

lemma check_loop_not_dogpile:
  "for_each (check_body template force ff) xs st = Inl (e, evs) \<Longrightarrow> \<forall>fs. e \<noteq> DogpileError fs"
  by (rule for_each_not_dogpile[of "check_body template force ff"]) (auto dest: check_body_Inl)

lemma tag_loop_not_dogpile:
  "for_each (tag_body ff dry) xs st = Inl (e, evs) \<Longrightarrow> \<forall>fs. e \<noteq> DogpileError fs"
  by (rule for_each_not_dogpile[of "tag_body ff dry"]) (auto dest: tag_body_Inl)

lemma check_product_tags_completes:
  "completes (check_product_tags xs template force ff) \<longleftrightarrow>
     (\<exists>st'. for_each (check_body template force ff) xs
              \<lparr>results = [], problems = [], events = []\<rparr> = Inr st' \<and>
            snd (check_product_tags xs template force ff) = events st')"
  by (auto simp: completes_def check_product_tags_def
        split: sum.splits prod.splits error.splits dest: check_loop_not_dogpile)

lemma tag_products_completes:
  "completes (tag_products xs ff dry) \<longleftrightarrow>
     (\<exists>st'. for_each (tag_body ff dry) xs \<lparr>results = (), problems = [], events = []\<rparr> = Inr st' \<and>
            snd (tag_products xs ff dry) = events st')"
  by (auto simp: completes_def tag_products_def
        split: sum.splits prod.splits error.splits dest: tag_loop_not_dogpile)

lemma check_loop_no_rate_limit:
  "case for_each (check_body template force ff) xs \<lparr>results = [], problems = [], events = []\<rparr> of
     Inr st' \<Rightarrow> \<forall>f \<in> set (problems st'). \<not> is_rate_limit f
   | Inl e \<Rightarrow> \<forall>f \<in> set (failures_of (fst e)). \<not> is_rate_limit f"
proof (rule for_each_invariant)
  fix x st st'
  assume "\<forall>f \<in> set (problems st). \<not> is_rate_limit f" "check_body template force ff x st = Inr st'"
  then show "\<forall>f \<in> set (problems st'). \<not> is_rate_limit f"
    using check_body_Inr[of template force ff "fst x" "snd x" st st'] by auto
next
  fix x st e
  assume "check_body template force ff x st = Inl e"
  then show "\<forall>f \<in> set (failures_of (fst e)). \<not> is_rate_limit f"
    using check_body_Inl[of template force ff x st "fst e" "snd e"] by simp
next
  show "\<forall>f \<in> set (problems \<lparr>results = [], problems = [], events = []\<rparr>). \<not> is_rate_limit f"
    by simp
qed

lemma tag_loop_no_rate_limit:
  "case for_each (tag_body ff dry) xs \<lparr>results = (), problems = [], events = []\<rparr> of
     Inr st' \<Rightarrow> \<forall>f \<in> set (problems st'). \<not> is_rate_limit f
   | Inl e \<Rightarrow> \<forall>f \<in> set (failures_of (fst e)). \<not> is_rate_limit f"
proof (rule for_each_invariant)
  fix x st st'
  assume "\<forall>f \<in> set (problems st). \<not> is_rate_limit f" "tag_body ff dry x st = Inr st'"
  then show "\<forall>f \<in> set (problems st'). \<not> is_rate_limit f"
    using tag_body_Inr[of ff dry x st st'] by auto
next
  fix x st e
  assume "tag_body ff dry x st = Inl e"
  then show "\<forall>f \<in> set (failures_of (fst e)). \<not> is_rate_limit f"
    using tag_body_Inl[of ff dry x st "fst e" "snd e"] by simp
next
  show "\<forall>f \<in> set (problems \<lparr>results = (), problems = [], events = []\<rparr>). \<not> is_rate_limit f"
    by simp
qed

section \<open>The resolver's loop\<close>

lemma list_ex_inter: "list_ex (\<lambda>x. x \<in> set ys) xs \<longleftrightarrow> set ys \<inter> set xs \<noteq> {}"
  by (auto simp: list_ex_iff)

lemma resolve_body_Inr:
  assumes "resolve_body org allow ext deny ff (n, d) st = Inr st'"
  shows "results st' = results st \<or>
         (\<exists>r teams et xl. org n = Inr r \<and> get_teams r = Inr teams \<and>
            map_of d ''eups_version'' = Some et \<and> ext = Some xl \<and>
            set teams \<inter> set allow \<noteq> {} \<and>
            (\<forall>dl. deny = Some dl \<longrightarrow> set teams \<inter> set dl = {}) \<and>
            results st' = dict_set (results st) n
              \<lparr>p_fields = d, p_repo = r, p_v = (set teams \<inter> set xl \<noteq> {})\<rparr>)"
  using assms
  by (auto simp: resolve_body_def check_repo_teams_def has_ext_team_def dict_get_def Let_def
        list_ex_inter
        split: option.splits sum.splits if_splits gh_error.splits)



lemma resolve_loop_external:
  "case for_each (resolve_body org allow (Some xl) deny ff) products
          \<lparr>results = [], problems = [], events = []\<rparr> of
     Inr st' \<Rightarrow>
       \<forall>(k, p) \<in> set (results st'). \<exists>d r teams. (k, d) \<in> set products \<and> org k = Inr r \<and>
          get_teams r = Inr teams \<and> set teams \<inter> set allow \<noteq> {} \<and>
          (\<forall>dl. deny = Some dl \<longrightarrow> set teams \<inter> set dl = {}) \<and>
          p = \<lparr>p_fields = d, p_repo = r, p_v = (set teams \<inter> set xl \<noteq> {})\<rparr>
   | Inl e \<Rightarrow> True"
proof (rule for_each_invariant)
  fix x st st'
  assume x: "x \<in> set products"
    and inv: "\<forall>(k, p) \<in> set (results st). \<exists>d r teams. (k, d) \<in> set products \<and> org k = Inr r \<and>
          get_teams r = Inr teams \<and> set teams \<inter> set allow \<noteq> {} \<and>
          (\<forall>dl. deny = Some dl \<longrightarrow> set teams \<inter> set dl = {}) \<and>
          p = \<lparr>p_fields = d, p_repo = r, p_v = (set teams \<inter> set xl \<noteq> {})\<rparr>"
    and body: "resolve_body org allow (Some xl) deny ff x st = Inr st'"
  obtain n d where nd: "x = (n, d)" by (cases x)
  from resolve_body_Inr[OF body[unfolded nd]]
  show "\<forall>(k, p) \<in> set (results st'). \<exists>d r teams. (k, d) \<in> set products \<and> org k = Inr r \<and>
          get_teams r = Inr teams \<and> set teams \<inter> set allow \<noteq> {} \<and>
          (\<forall>dl. deny = Some dl \<longrightarrow> set teams \<inter> set dl = {}) \<and>
          p = \<lparr>p_fields = d, p_repo = r, p_v = (set teams \<inter> set xl \<noteq> {})\<rparr>"
  proof
    assume "results st' = results st"
    with inv show ?thesis by simp
  next
    assume "\<exists>r teams et xl'. org n = Inr r \<and> get_teams r = Inr teams \<and>
            map_of d ''eups_version'' = Some et \<and> Some xl = Some xl' \<and>
            set teams \<inter> set allow \<noteq> {} \<and>
            (\<forall>dl. deny = Some dl \<longrightarrow> set teams \<inter> set dl = {}) \<and>
            results st' = dict_set (results st) n
              \<lparr>p_fields = d, p_repo = r, p_v = (set teams \<inter> set xl' \<noteq> {})\<rparr>"
    then obtain r teams where r: "org n = Inr r" "get_teams r = Inr teams"
      "set teams \<inter> set allow \<noteq> {}" "\<forall>dl. deny = Some dl \<longrightarrow> set teams \<inter> set dl = {}"
      and new: "results st' = dict_set (results st) n
              \<lparr>p_fields = d, p_repo = r, p_v = (set teams \<inter> set xl \<noteq> {})\<rparr>"
      by auto
    show ?thesis
    proof (clarify)
      fix k p
      assume "(k, p) \<in> set (results st')"
      with new set_dict_set[of "results st" n] have
        "(k, p) = (n, \<lparr>p_fields = d, p_repo = r, p_v = (set teams \<inter> set xl \<noteq> {})\<rparr>) \<or>
         (k, p) \<in> set (results st)"
        by auto
      then show "\<exists>d r teams. (k, d) \<in> set products \<and> org k = Inr r \<and>
          get_teams r = Inr teams \<and> set teams \<inter> set allow \<noteq> {} \<and>
          (\<forall>dl. deny = Some dl \<longrightarrow> set teams \<inter> set dl = {}) \<and>
          p = \<lparr>p_fields = d, p_repo = r, p_v = (set teams \<inter> set xl \<noteq> {})\<rparr>"
      proof
        assume "(k, p) = (n, \<lparr>p_fields = d, p_repo = r, p_v = (set teams \<inter> set xl \<noteq> {})\<rparr>)"
        with x nd r show ?thesis by auto
      next
        assume "(k, p) \<in> set (results st)"
        with inv show ?thesis by auto
      qed
    qed
  qed
next
  fix x st e
  show True ..
next
  show "\<forall>(k, p) \<in> set (results \<lparr>results = [], problems = [], events = []\<rparr>).
     \<exists>d r teams. (k, d) \<in> set products \<and> org k = Inr r \<and>
          get_teams r = Inr teams \<and> set teams \<inter> set allow \<noteq> {} \<and>
          (\<forall>dl. deny = Some dl \<longrightarrow> set teams \<inter> set dl = {}) \<and>
          p = \<lparr>p_fields = d, p_repo = r, p_v = (set teams \<inter> set xl \<noteq> {})\<rparr>"
    by simp
qed

lemma get_repo_for_products_external:
  assumes "get_repo_for_products org products allow (Some xl) deny ff = (Inr resolved, evs)"
    and "(k, p) \<in> set resolved"
  shows "\<exists>d r teams. (k, d) \<in> set products \<and> org k = Inr r \<and> get_teams r = Inr teams \<and>
           set teams \<inter> set allow \<noteq> {} \<and>
           (\<forall>dl. deny = Some dl \<longrightarrow> set teams \<inter> set dl = {}) \<and>
           p_repo p = r \<and> (p_v p \<longleftrightarrow> set teams \<inter> set xl \<noteq> {})"
proof -
  from assms(1) obtain st' where
    "for_each (resolve_body org allow (Some xl) deny ff) products
       \<lparr>results = [], problems = [], events = []\<rparr> = Inr st'" "results st' = resolved"
    by (auto simp: get_repo_for_products_def split: sum.splits if_splits prod.splits)
  with resolve_loop_external[where org=org and allow=allow and xl=xl and deny=deny and ff=ff
      and products=products] assms(2)
  show ?thesis by fastforce
qed

section \<open>Dry runs\<close>

lemma tag_loop_dry_run:
  assumes "\<forall>(n, pl) \<in> set plans. \<exists>et. map_of (p_fields pl) ''eups_version'' = Some et"
  shows "for_each (tag_body ff True) plans st =
     Inr (st\<lparr>events := events st @
        concat (map (\<lambda>(n, pl). case map_of (p_fields pl) ''eups_version'' of
                   None \<Rightarrow> []
                 | Some et \<Rightarrow>
                     [Log INFO (TaggingRepo (full_name (p_repo pl)) (tag_sha (p_target_tag pl))
                        (tag_name (p_target_tag pl)) et (p_v pl) (p_update_tag pl)),
                      Log INFO Noop]) plans)\<rparr>)"
  using assms
proof (induction plans arbitrary: st)
  case Nil
  show ?case by simp
next
  case (Cons x plans)
  obtain n pl where x: "x = (n, pl)" by (cases x)
  from Cons.prems x obtain et where et: "map_of (p_fields pl) ''eups_version'' = Some et" by auto
  from Cons.prems have rest: "\<forall>(n, pl) \<in> set plans. \<exists>et. map_of (p_fields pl) ''eups_version'' = Some et"
    by simp
  show ?case
    by (simp add: x tag_body_dry_run[OF et] Cons.IH[OF rest] et)
qed

lemma tag_loop_dry_run_calls:
  "case for_each (tag_body ff True) plans \<lparr>results = (), problems = [], events = []\<rparr> of
     Inr st' \<Rightarrow> \<forall>ev \<in> set (events st'). \<not> is_call ev
   | Inl e \<Rightarrow> \<forall>ev \<in> set (snd e). \<not> is_call ev"
proof (rule for_each_invariant)
  fix x st st'
  assume "\<forall>ev \<in> set (events st). \<not> is_call ev" "tag_body ff True x st = Inr st'"
  with tag_body_dry_run_calls[of st ff x] show "\<forall>ev \<in> set (events st'). \<not> is_call ev" by simp
next
  fix x st e
  assume "\<forall>ev \<in> set (events st). \<not> is_call ev" "tag_body ff True x st = Inl e"
  with tag_body_dry_run_calls[of st ff x] show "\<forall>ev \<in> set (snd e). \<not> is_call ev" by simp
next
  show "\<forall>ev \<in> set (events \<lparr>results = (), problems = [], events = []\<rparr>). \<not> is_call ev" by simp
qed

lemma resolve_loop_fields:
  "case for_each (resolve_body org allow ext deny ff) products
          \<lparr>results = [], problems = [], events = []\<rparr> of
     Inr st' \<Rightarrow> \<forall>(k, p) \<in> set (results st'). \<exists>et. map_of (p_fields p) ''eups_version'' = Some et
   | Inl e \<Rightarrow> True"
proof (rule for_each_invariant)
  fix x st st'
  assume inv: "\<forall>(k, p) \<in> set (results st). \<exists>et. map_of (p_fields p) ''eups_version'' = Some et"
    and body: "resolve_body org allow ext deny ff x st = Inr st'"
  obtain n d where nd: "x = (n, d)" by (cases x)
  from resolve_body_Inr[OF body[unfolded nd]] inv set_dict_set[of "results st" n]
  show "\<forall>(k, p) \<in> set (results st'). \<exists>et. map_of (p_fields p) ''eups_version'' = Some et"
    by (elim disjE exE conjE) (simp, fastforce)
next
  fix x st e
  show True ..
next
  show "\<forall>(k, p) \<in> set (results \<lparr>results = [], problems = [], events = []\<rparr>).
          \<exists>et. map_of (p_fields p) ''eups_version'' = Some et" by simp
qed

lemma get_repo_for_products_fields:
  assumes "get_repo_for_products org products allow ext deny ff = (Inr resolved, evs)"
    and "(k, p) \<in> set resolved"
  shows "\<exists>et. map_of (p_fields p) ''eups_version'' = Some et"
proof -
  from assms(1) obtain st' where
    "for_each (resolve_body org allow ext deny ff) products
       \<lparr>results = [], problems = [], events = []\<rparr> = Inr st'" "results st' = resolved"
    by (auto simp: get_repo_for_products_def split: sum.splits if_splits prod.splits)
  with resolve_loop_fields[where org=org and allow=allow and ext=ext and deny=deny and ff=ff
      and products=products] assms(2)
  show ?thesis by auto
qed

section \<open>Fail-fast\<close>





















section \<open>Claims\<close>

text \<open>C1. A product whose repository has the tag on another commit, under \<open>force_tag\<close>:
  the specification has a plan with \<open>update_tag\<close> true and an applier that moves the
  existing reference. The planner warns that the tag will be moved, but its plan has
  \<open>update_tag\<close> false; the applier then creates the tag object and asks for a new
  reference \<open>refs/tags/w.2018.18\<close>, which exists, and never edits the existing one.\<close>

theorem forced_conflict_plan_creates_reference:
  "check_product_tags [(''pkgA'', pkgA ''9f8e7d'')] weekly_template True False =
     (Inr [(''pkgA'',
            \<lparr>p_fields = [(''eups_version'', ''w_2018_18''), (''sha'', ''abc123'')],
             p_repo = tagged_repo ''9f8e7d'', p_v = False,
             p_target_tag = \<lparr>tag_name = ''w.2018.18'',
                tag_message = ''Version w.2018.18 release from w.2018.18/b3595'',
                tag_tagger = sqre_tagger, tag_sha = ''abc123''\<rparr>,
             p_update_tag = False\<rparr>)],
      [Log WARN (ConflictingValues ''w.2018.18'' ''t0''
           ''Version w.2018.18 release from w.2018.18/b3595''
           (GitAuthor ''sqre'' ''sqre@lsst.org'' ''2018-04-01T00:00:00Z'')
           ''abc123'' ''Version w.2018.18 release from w.2018.18/b3595'' sqre_tagger),
       Log WARN (WillBeMoved ''w.2018.18'')])
   \<and> tag_products
       [(''pkgA'',
         \<lparr>p_fields = [(''eups_version'', ''w_2018_18''), (''sha'', ''abc123'')],
          p_repo = tagged_repo ''9f8e7d'', p_v = False,
          p_target_tag = \<lparr>tag_name = ''w.2018.18'',
             tag_message = ''Version w.2018.18 release from w.2018.18/b3595'',
             tag_tagger = sqre_tagger, tag_sha = ''abc123''\<rparr>,
          p_update_tag = False\<rparr>)] False False =
     (Inl (DogpileError [CaughtRepositoryError ''lsst/pkgA'' GithubException]),
      [Log INFO (TaggingRepo ''lsst/pkgA'' ''abc123'' ''w.2018.18'' ''w_2018_18'' False False),
       Call (CreateGitTag ''lsst/pkgA'' ''w.2018.18''
           ''Version w.2018.18 release from w.2018.18/b3595'' ''abc123'' ''commit'' sqre_tagger),
       Call (CreateGitRef ''lsst/pkgA'' ''refs/tags/w.2018.18'' ''t1''),
       Log ERROR (FailureMsg (CaughtRepositoryError ''lsst/pkgA'' GithubException))])"
  by (simp add: check_defs tag_defs example_defs)

text \<open>C2. A candidate product that has no record in the manifest, without fail-fast: the
  specification has one recorded failure, no merge, and the next product. The handler of
  the missing record does not leave the iteration. With the single product \<open>pkgB\<close> the
  stage ends in \<open>UnboundLocalError\<close> for \<open>manifest_data\<close>, not in one aggregated error;
  after a product that has a record, the product without one is compared with the record
  of the product before it, and here two failures are recorded for it.\<close>

theorem cross_reference_missing_manifest_entry:
  "cross_reference_products [(''pkgB'', [(''eups_version'', ''w_2018_18'')])] [] False False =
     (Inl (UnboundLocalError ''manifest_data''),
      [Log ERROR (FailureMsg (MissingManifest ''pkgB'' ''w_2018_18''))])
   \<and> cross_reference_products
       [(''pkgA'', [(''eups_version'', ''w_2018_18'')]),
        (''pkgB'', [(''eups_version'', ''w_2018_19'')])]
       [(''pkgA'', [(''eups_version'', ''w_2018_18''), (''sha'', ''abc123'')])] False False =
     (Inl (DogpileError [MissingManifest ''pkgB'' ''w_2018_19'',
                         VersionMismatch ''pkgB'' ''w_2018_19'' ''w_2018_18'']),
      [Log ERROR (FailureMsg (MissingManifest ''pkgB'' ''w_2018_19'')),
       Log ERROR (FailureMsg (VersionMismatch ''pkgB'' ''w_2018_19'' ''w_2018_18''))])"
  by (simp add: xref_defs)

text \<open>C6. A product of the candidate mapping that has a record in the manifest with the
  same version string: whenever the stage returns, the returned mapping has exactly one
  entry for the product, the candidate record updated with the manifest record, whose
  fields are those of both with the manifest's value where both have the key. The stage
  does return when every candidate product has such a record.\<close>

theorem cross_reference_merges_equal_versions:
  assumes "distinct (map fst eups_products)"
    and "(pname, eups_data) \<in> set eups_products"
    and "map_of manifest_products pname = Some manifest_rec"
    and "distinct (map fst manifest_rec)"
    and "map_of eups_data ''eups_version'' = Some ver"
    and "map_of manifest_rec ''eups_version'' = Some ver"
  shows "(\<forall>products evs.
            cross_reference_products eups_products manifest_products ignore_version fail_fast =
              (Inr products, evs) \<longrightarrow>
            length (filter (\<lambda>(k, r). k = pname) products) = 1 \<and>
            map_of products pname = Some (dict_update eups_data manifest_rec)) \<and>
         map_of (dict_update eups_data manifest_rec) = map_of eups_data ++ map_of manifest_rec \<and>
         ((\<forall>(n, e) \<in> set eups_products. \<exists>m t. map_of manifest_products n = Some m \<and>
              map_of e ''eups_version'' = Some t \<and> map_of m ''eups_version'' = Some t) \<longrightarrow>
          (\<exists>products.
             cross_reference_products eups_products manifest_products ignore_version fail_fast =
               (Inr products, [])))"
proof (intro conjI allI impI)
  fix products evs
  assume "cross_reference_products eups_products manifest_products ignore_version fail_fast =
            (Inr products, evs)"
  from cross_reference_Inr[OF this] obtain st' where
    loop: "for_each (xref_body manifest_products ignore_version fail_fast) eups_products
            \<lparr>results = [], problems = [], events = [], manifest_data = None\<rparr> = Inr st'"
    and st': "problems st' = []" "results st' = products"
    by blast
  from xref_loop_merged[OF loop st'(1) assms(1,2)] assms(3,5,6) st'(2)
  have "map_of products pname =
      Some (dict_update eups_data
        (if ignore_version then dict_set manifest_rec ''eups_version'' ver else manifest_rec))"
    by auto
  then show entry: "map_of products pname = Some (dict_update eups_data manifest_rec)"
    using assms(6) by (simp add: dict_set_same)
  from xref_loop_distinct[OF loop] st'(2) have "distinct (map fst products)" by simp
  from dict_entry_once[OF this entry]
  show "length (filter (\<lambda>(k, r). k = pname) products) = 1" .
next
  show "map_of (dict_update eups_data manifest_rec) = map_of eups_data ++ map_of manifest_rec"
    using assms(4) by (rule map_of_dict_update)
next
  assume "\<forall>(n, e) \<in> set eups_products. \<exists>m t. map_of manifest_products n = Some m \<and>
            map_of e ''eups_version'' = Some t \<and> map_of m ''eups_version'' = Some t"
  then have "\<forall>(n, e) \<in> set eups_products. \<exists>m t. map_of manifest_products n = Some m \<and>
            map_of e ''eups_version'' = Some t \<and>
            (ignore_version \<or> map_of m ''eups_version'' = Some t)"
    by fast
  from xref_loop_present[OF this, of fail_fast
      "\<lparr>results = [], problems = [], events = [], manifest_data = None\<rparr>"]
  show "\<exists>products.
          cross_reference_products eups_products manifest_products ignore_version fail_fast =
            (Inr products, [])"
    by (auto simp: cross_reference_products_def)
qed

theorem cross_reference_merges_equal_versions_witness:
  "cross_reference_products [(''pkgA'', [(''eups_version'', ''w_2018_18'')])]
     [(''pkgA'', [(''eups_version'', ''w_2018_18''), (''sha'', ''abc123'')])] False False =
     (Inr [(''pkgA'', [(''eups_version'', ''w_2018_18''), (''sha'', ''abc123'')])], []) \<and>
   length (filter (\<lambda>(k, r). k = ''pkgA'')
     [(''pkgA'', [(''eups_version'', ''w_2018_18''), (''sha'', ''abc123'')])]) = 1 \<and>
   dict_update [(''eups_version'', ''w_2018_18'')]
     [(''eups_version'', ''w_2018_18''), (''sha'', ''abc123'')] =
     [(''eups_version'', ''w_2018_18''), (''sha'', ''abc123'')]"
proof -
  have run: "cross_reference_products [(''pkgA'', [(''eups_version'', ''w_2018_18'')])]
     [(''pkgA'', [(''eups_version'', ''w_2018_18''), (''sha'', ''abc123'')])] False False =
     (Inr [(''pkgA'', [(''eups_version'', ''w_2018_18''), (''sha'', ''abc123'')])], [])"
    by (simp add: xref_defs)
  have upd: "dict_update [(''eups_version'', ''w_2018_18'')]
     [(''eups_version'', ''w_2018_18''), (''sha'', ''abc123'')] =
     [(''eups_version'', ''w_2018_18''), (''sha'', ''abc123'')]"
    by (simp add: dict_update_def)
  from cross_reference_merges_equal_versions[of
      "[(''pkgA'', [(''eups_version'', ''w_2018_18'')])]" "''pkgA''"
      "[(''eups_version'', ''w_2018_18'')]"
      "[(''pkgA'', [(''eups_version'', ''w_2018_18''), (''sha'', ''abc123'')])]"
      "[(''eups_version'', ''w_2018_18''), (''sha'', ''abc123'')]" "''w_2018_18''" False False]
  have "length (filter (\<lambda>(k, r). k = ''pkgA'')
     [(''pkgA'', [(''eups_version'', ''w_2018_18''), (''sha'', ''abc123'')])]) = 1"
    using run by simp
  with run upd show ?thesis by simp
qed


text \<open>C7. Under \<open>ignore_version\<close> no version mismatch is among the failures the stage
  raises, alone or aggregated; the merged record of a product that is in both mappings
  carries the candidate's version string; and the stage returns when every candidate
  product has a record in the manifest, whatever version string that record has.\<close>

theorem ignore_version_uses_candidate_token:
  "(\<forall>err. fst (cross_reference_products eups_products manifest_products True fail_fast) = Inl err
       \<longrightarrow> (\<forall>f \<in> set (failures_of err). \<not> is_mismatch f)) \<and>
   (\<forall>pname eups_data manifest_rec ver products evs.
       distinct (map fst eups_products) \<and> (pname, eups_data) \<in> set eups_products \<and>
       map_of manifest_products pname = Some manifest_rec \<and> distinct (map fst manifest_rec) \<and>
       map_of eups_data ''eups_version'' = Some ver \<and>
       cross_reference_products eups_products manifest_products True fail_fast =
         (Inr products, evs)
       \<longrightarrow> (\<exists>r. map_of products pname = Some r \<and> map_of r ''eups_version'' = Some ver)) \<and>
   ((\<forall>(n, e) \<in> set eups_products.
        (\<exists>m. map_of manifest_products n = Some m) \<and> (\<exists>t. map_of e ''eups_version'' = Some t))
     \<longrightarrow> (\<exists>products.
            cross_reference_products eups_products manifest_products True fail_fast =
              (Inr products, [])))"
proof (intro conjI allI impI)
  fix err
  assume "fst (cross_reference_products eups_products manifest_products True fail_fast) = Inl err"
  with xref_loop_no_mismatch[of manifest_products fail_fast eups_products]
  show "\<forall>f \<in> set (failures_of err). \<not> is_mismatch f"
    by (auto simp: cross_reference_products_def split: sum.splits if_splits prod.splits)
next
  fix pname eups_data manifest_rec ver products evs
  assume a: "distinct (map fst eups_products) \<and> (pname, eups_data) \<in> set eups_products \<and>
       map_of manifest_products pname = Some manifest_rec \<and> distinct (map fst manifest_rec) \<and>
       map_of eups_data ''eups_version'' = Some ver \<and>
       cross_reference_products eups_products manifest_products True fail_fast =
         (Inr products, evs)"
  then have ret: "cross_reference_products eups_products manifest_products True fail_fast =
         (Inr products, evs)" by simp
  from cross_reference_Inr[OF ret] obtain st' where
    loop: "for_each (xref_body manifest_products True fail_fast) eups_products
            \<lparr>results = [], problems = [], events = [], manifest_data = None\<rparr> = Inr st'"
    and st': "problems st' = []" "results st' = products"
    by blast
  from a have d: "distinct (map fst eups_products)" and m: "(pname, eups_data) \<in> set eups_products"
    by simp_all
  from xref_loop_merged[OF loop st'(1) d m] a st'(2)
  have entry: "map_of products pname =
      Some (dict_update eups_data (dict_set manifest_rec ''eups_version'' ver))"
    by auto
  from a have "distinct (map fst (dict_set manifest_rec ''eups_version'' ver))"
    by (simp add: distinct_dict_set)
  then have "map_of (dict_update eups_data (dict_set manifest_rec ''eups_version'' ver))
      ''eups_version'' = Some ver"
    by (simp add: map_of_dict_update map_of_dict_set_at)
  with entry show "\<exists>r. map_of products pname = Some r \<and> map_of r ''eups_version'' = Some ver"
    by simp
next
  assume "\<forall>(n, e) \<in> set eups_products.
        (\<exists>m. map_of manifest_products n = Some m) \<and> (\<exists>t. map_of e ''eups_version'' = Some t)"
  then have "\<forall>(n, e) \<in> set eups_products. \<exists>m t. map_of manifest_products n = Some m \<and>
            map_of e ''eups_version'' = Some t \<and> (True \<or> map_of m ''eups_version'' = Some t)"
    by fast
  from xref_loop_present[OF this, of fail_fast
      "\<lparr>results = [], problems = [], events = [], manifest_data = None\<rparr>"]
  show "\<exists>products.
          cross_reference_products eups_products manifest_products True fail_fast =
            (Inr products, [])"
    by (auto simp: cross_reference_products_def)
qed

theorem ignore_version_uses_candidate_token_witness:
  "cross_reference_products [(''pkgA'', [(''eups_version'', ''w_2018_18'')])]
     [(''pkgA'', [(''eups_version'', ''w_2018_17''), (''sha'', ''abc123'')])] True False =
     (Inr [(''pkgA'', [(''eups_version'', ''w_2018_18''), (''sha'', ''abc123'')])], []) \<and>
   (\<exists>r. map_of [(''pkgA'', [(''eups_version'', ''w_2018_18''), (''sha'', ''abc123'')])] ''pkgA'' =
          Some r \<and> map_of r ''eups_version'' = Some ''w_2018_18'')"
proof -
  have run: "cross_reference_products [(''pkgA'', [(''eups_version'', ''w_2018_18'')])]
     [(''pkgA'', [(''eups_version'', ''w_2018_17''), (''sha'', ''abc123'')])] True False =
     (Inr [(''pkgA'', [(''eups_version'', ''w_2018_18''), (''sha'', ''abc123'')])], [])"
    by (simp add: xref_defs)
  from ignore_version_uses_candidate_token[of
      "[(''pkgA'', [(''eups_version'', ''w_2018_18'')])]"
      "[(''pkgA'', [(''eups_version'', ''w_2018_17''), (''sha'', ''abc123'')])]" False]
  have "distinct (map fst [(''pkgA'', [(''eups_version'', ''w_2018_18'')])]) \<and>
     (''pkgA'', [(''eups_version'', ''w_2018_18'')]) \<in>
        set [(''pkgA'', [(''eups_version'', ''w_2018_18'')])] \<and>
     map_of [(''pkgA'', [(''eups_version'', ''w_2018_17''), (''sha'', ''abc123'')])] ''pkgA'' =
        Some [(''eups_version'', ''w_2018_17''), (''sha'', ''abc123'')] \<and>
     distinct (map fst [(''eups_version'', ''w_2018_17''), (''sha'', ''abc123'')]) \<and>
     map_of [(''eups_version'', ''w_2018_18'')] ''eups_version'' = Some ''w_2018_18'' \<and>
     cross_reference_products [(''pkgA'', [(''eups_version'', ''w_2018_18'')])]
       [(''pkgA'', [(''eups_version'', ''w_2018_17''), (''sha'', ''abc123'')])] True False =
       (Inr [(''pkgA'', [(''eups_version'', ''w_2018_18''), (''sha'', ''abc123'')])], [])
     \<longrightarrow> (\<exists>r. map_of [(''pkgA'', [(''eups_version'', ''w_2018_18''), (''sha'', ''abc123'')])]
                ''pkgA'' = Some r \<and> map_of r ''eups_version'' = Some ''w_2018_18'')"
    by blast
  with run show ?thesis by simp
qed




text \<open>C4. The resolver without the option \<open>--external-team\<close>: the specification has an
  optional external-team set, and \<open>is_external\<close> false when none is given. A product that passes
  the team policy then ends the stage in \<open>TypeError\<close>.\<close>

theorem resolver_without_external_teams:
  "get_repo_for_products (\<lambda>n. Inr (tagged_repo ''abc123''))
     [(''pkgA'', [(''eups_version'', ''w_2018_18''), (''sha'', ''abc123'')])]
     [''Data Management''] None (Some []) False = (Inl TypeError, [])"
  by (simp add: resolve_defs example_defs)

text \<open>C5. A product whose existing tag is in sync is skipped: its iteration only logs the
  notice and leaves the plans and the problems as they are; the mapping the planner
  returns has no entry for it; and when every product is in sync the planner returns the
  empty mapping with nothing but notices, on which the applier requests nothing.\<close>

theorem planner_skips_in_sync_tag:
  "(in_sync template pdata \<longrightarrow>
      (\<exists>t_tag. product_target_tag template pdata = Inr t_tag \<and>
         check_body template force_tag fail_fast (pname, pdata) st =
           Inr (st\<lparr>events := events st @
                  [Log WARN (NoAction (full_name (p_repo pdata)) (tag_name t_tag))]\<rparr>))) \<and>
   (distinct (map fst products) \<and> (pname, pdata) \<in> set products \<and> in_sync template pdata \<longrightarrow>
      (\<forall>plans evs. check_product_tags products template force_tag fail_fast = (Inr plans, evs)
         \<longrightarrow> map_of plans pname = None)) \<and>
   ((\<forall>(n, d) \<in> set products. in_sync template d) \<longrightarrow>
      (\<exists>evs. check_product_tags products template force_tag fail_fast = (Inr [], evs) \<and>
         (\<forall>ev \<in> set evs. \<exists>r t. ev = Log WARN (NoAction r t))) \<and>
      tag_products [] fail_fast dry_run = (Inr (), []))"
proof (intro conjI impI allI)
  assume "in_sync template pdata"
  then show "\<exists>t_tag. product_target_tag template pdata = Inr t_tag \<and>
         check_body template force_tag fail_fast (pname, pdata) st =
           Inr (st\<lparr>events := events st @
                  [Log WARN (NoAction (full_name (p_repo pdata)) (tag_name t_tag))]\<rparr>)"
    by (rule check_body_in_sync)
next
  fix plans evs
  assume a: "distinct (map fst products) \<and> (pname, pdata) \<in> set products \<and>
             in_sync template pdata"
    and ret: "check_product_tags products template force_tag fail_fast = (Inr plans, evs)"
  from a have "\<forall>(k, d) \<in> set products. k = pname \<longrightarrow> in_sync template d"
    by (auto dest: eq_key_imp_eq_value)
  moreover from check_product_tags_Inr[OF ret] obtain st' where
    "for_each (check_body template force_tag fail_fast) products
            \<lparr>results = [], problems = [], events = []\<rparr> = Inr st'" "results st' = plans"
    by blast
  ultimately show "map_of plans pname = None"
    using check_loop_keeps[of template force_tag fail_fast products
        "\<lparr>results = [], problems = [], events = []\<rparr>" st' pname]
    by simp
next
  assume "\<forall>(n, d) \<in> set products. in_sync template d"
  from check_loop_all_in_sync[OF this, of force_tag fail_fast
      "\<lparr>results = [], problems = [], events = []\<rparr>"]
  show "\<exists>evs. check_product_tags products template force_tag fail_fast = (Inr [], evs) \<and>
         (\<forall>ev \<in> set evs. \<exists>r t. ev = Log WARN (NoAction r t))"
    by (auto simp: check_product_tags_def)
next
  show "tag_products [] fail_fast dry_run = (Inr (), [])"
    by (simp add: tag_products_def)
qed

theorem planner_skips_in_sync_tag_witness:
  "in_sync weekly_template (pkgA ''abc123'') \<and>
   check_product_tags [(''pkgA'', pkgA ''abc123'')] weekly_template False False =
     (Inr [], [Log WARN (NoAction ''lsst/pkgA'' ''w.2018.18'')]) \<and>
   map_of ([] :: (string \<times> plan) list) ''pkgA'' = None \<and>
   tag_products [] False False = (Inr (), [])"
proof -
  have sync: "in_sync weekly_template (pkgA ''abc123'')"
    by (simp add: in_sync_def check_defs example_defs del: set_filter)
  have ret: "check_product_tags [(''pkgA'', pkgA ''abc123'')] weekly_template False False =
     (Inr [], [Log WARN (NoAction ''lsst/pkgA'' ''w.2018.18'')])"
    by (simp add: check_defs example_defs del: set_filter)
  from planner_skips_in_sync_tag[of weekly_template "pkgA ''abc123''" False False "''pkgA''"
      "\<lparr>results = [], problems = [], events = []\<rparr>" "[(''pkgA'', pkgA ''abc123'')]" False]
    sync ret
  have "map_of ([] :: (string \<times> plan) list) ''pkgA'' = None \<and>
        tag_products [] False False = (Inr (), [])"
    by simp
  with sync ret show ?thesis by simp
qed

text \<open>C8. Every entry of the mapping the planner returns belongs to a product of its
  input, and the name of its target tag is the template's name with the prefix \<open>v\<close>
  exactly when the product is external and the template's name begins with a digit;
  otherwise it is the template's name.\<close>

theorem target_tag_name_prefix:
  assumes "check_product_tags products template force_tag fail_fast = (Inr plans, evs)"
    and "(pname, pl) \<in> set plans"
  shows "\<exists>pdata. (pname, pdata) \<in> set products \<and> p_v pl = p_v pdata \<and>
           tag_name (p_target_tag pl) =
             (if p_v pdata \<and> (\<exists>c cs. tag_name template = c # cs \<and> c \<in> set ''0123456789'')
              then CHR ''v'' # tag_name template else tag_name template) \<and>
           (tag_name (p_target_tag pl) = CHR ''v'' # tag_name template \<longleftrightarrow>
              p_v pdata \<and> (\<exists>c cs. tag_name template = c # cs \<and> c \<in> set ''0123456789''))"
proof -
  from check_product_tags_entries[OF assms] obtain d t where
    d: "(pname, d) \<in> set products" and t: "product_target_tag template d = Inr t"
    and pl: "pl = \<lparr>p_fields = p_fields d, p_repo = p_repo d, p_v = p_v d,
                p_target_tag = t, p_update_tag = False\<rparr>"
    by blast
  have digit: "match_digit (tag_name template) \<longleftrightarrow>
      (\<exists>c cs. tag_name template = c # cs \<and> c \<in> set ''0123456789'')"
    by (cases "tag_name template") (simp_all add: match_digit_def)
  from t have "tag_name t =
      (if p_v d \<and> match_digit (tag_name template)
       then CHR ''v'' # tag_name template else tag_name template)"
    by (auto simp: product_target_tag_def split: sum.splits)
  with d pl digit show ?thesis
    by (intro exI[of _ d]) auto
qed

theorem target_tag_name_prefix_witness:
  "check_product_tags
     [(''pkgA'', \<lparr>p_fields = [(''eups_version'', ''v11_0_rc2''), (''sha'', ''abc123'')],
                  p_repo = tagged_repo ''abc123'', p_v = True\<rparr>)]
     \<lparr>tag_name = ''11.0.rc2'', tag_message = ''Version 11.0.rc2 release from v11_0_rc2/b1679'',
      tag_tagger = sqre_tagger\<rparr> False False =
     (Inr [(''pkgA'',
            \<lparr>p_fields = [(''eups_version'', ''v11_0_rc2''), (''sha'', ''abc123'')],
             p_repo = tagged_repo ''abc123'', p_v = True,
             p_target_tag = \<lparr>tag_name = ''v11.0.rc2'',
                tag_message = ''Version 11.0.rc2 release from v11_0_rc2/b1679'',
                tag_tagger = sqre_tagger, tag_sha = ''abc123''\<rparr>,
             p_update_tag = False\<rparr>)], []) \<and>
   (\<exists>pdata. (''pkgA'', pdata) \<in>
        set [(''pkgA'', \<lparr>p_fields = [(''eups_version'', ''v11_0_rc2''), (''sha'', ''abc123'')],
                  p_repo = tagged_repo ''abc123'', p_v = True\<rparr>)] \<and>
      p_v pdata \<and> ''v11.0.rc2'' = CHR ''v'' # ''11.0.rc2'')"
proof -
  let ?products = "[(''pkgA'', \<lparr>p_fields = [(''eups_version'', ''v11_0_rc2''), (''sha'', ''abc123'')],
                  p_repo = tagged_repo ''abc123'', p_v = True\<rparr>)]"
  let ?template = "\<lparr>tag_name = ''11.0.rc2'',
      tag_message = ''Version 11.0.rc2 release from v11_0_rc2/b1679'', tag_tagger = sqre_tagger\<rparr>"
  let ?pl = "\<lparr>p_fields = [(''eups_version'', ''v11_0_rc2''), (''sha'', ''abc123'')],
             p_repo = tagged_repo ''abc123'', p_v = True,
             p_target_tag = \<lparr>tag_name = ''v11.0.rc2'',
                tag_message = ''Version 11.0.rc2 release from v11_0_rc2/b1679'',
                tag_tagger = sqre_tagger, tag_sha = ''abc123''\<rparr>,
             p_update_tag = False\<rparr>"
  have ret: "check_product_tags ?products ?template False False = (Inr [(''pkgA'', ?pl)], [])"
    by (simp add: check_defs example_defs)
  have mem: "(''pkgA'', ?pl) \<in> set [(''pkgA'', ?pl)]" by simp
  from target_tag_name_prefix[OF ret mem]
  have "\<exists>pdata. (''pkgA'', pdata) \<in> set ?products \<and> p_v pdata \<and>
          ''v11.0.rc2'' = CHR ''v'' # ''11.0.rc2''"
    by auto
  with ret show ?thesis by simp
qed

text \<open>C9. No failure that the planner or the applier raises, alone or aggregated, wraps
  the rate-limit exception. When the platform answers a query of the planner for a
  product with the rate-limit exception, and the pass over the products before it
  completes, the stage raises that exception with the events of that pass, whatever
  \<open>force_tag\<close> and \<open>fail_fast\<close> are and whatever products follow; the same holds for
  the requests of the applier.\<close>

theorem rate_limit_propagates:
  "(\<forall>err. fst (check_product_tags products template force_tag fail_fast) = Inl err \<longrightarrow>
       (\<forall>f \<in> set (failures_of err). \<not> is_rate_limit f)) \<and>
   (\<forall>err. fst (tag_products plans fail_fast dry_run) = Inl err \<longrightarrow>
       (\<forall>f \<in> set (failures_of err). \<not> is_rate_limit f)) \<and>
   (completes (check_product_tags ps1 template force_tag fail_fast) \<and>
    check_rate_limited template pdata \<longrightarrow>
      check_product_tags (ps1 @ (pname, pdata) # ps2) template force_tag fail_fast =
        (Inl (Github RateLimitExceededException),
         snd (check_product_tags ps1 template force_tag fail_fast))) \<and>
   (completes (tag_products qs1 fail_fast False) \<and>
    map_of (p_fields pl) ''eups_version'' = Some et \<and>
    tag_requests_error pl = Some RateLimitExceededException \<longrightarrow>
      fst (tag_products (qs1 @ (qname, pl) # qs2) fail_fast False) =
        Inl (Github RateLimitExceededException) \<and>
      tag_products (qs1 @ (qname, pl) # qs2) fail_fast False =
        tag_products (qs1 @ [(qname, pl)]) fail_fast False)"
proof (intro conjI allI impI)
  fix err
  assume "fst (check_product_tags products template force_tag fail_fast) = Inl err"
  with check_loop_no_rate_limit[where template=template and force=force_tag and ff=fail_fast
      and xs=products]
  show "\<forall>f \<in> set (failures_of err). \<not> is_rate_limit f"
    by (auto simp: check_product_tags_def split: sum.splits if_splits prod.splits)
next
  fix err
  assume "fst (tag_products plans fail_fast dry_run) = Inl err"
  with tag_loop_no_rate_limit[where ff=fail_fast and dry=dry_run and xs=plans]
  show "\<forall>f \<in> set (failures_of err). \<not> is_rate_limit f"
    by (auto simp: tag_products_def split: sum.splits if_splits prod.splits)
next
  assume a: "completes (check_product_tags ps1 template force_tag fail_fast) \<and>
    check_rate_limited template pdata"
  then obtain s1 where
    s1: "for_each (check_body template force_tag fail_fast) ps1
           \<lparr>results = [], problems = [], events = []\<rparr> = Inr s1"
    and evs: "snd (check_product_tags ps1 template force_tag fail_fast) = events s1"
    by (auto simp: check_product_tags_completes)
  from a have "check_body template force_tag fail_fast (pname, pdata) s1 =
      Inl (Github RateLimitExceededException, events s1)"
    by (simp add: check_body_rate_limited)
  from for_each_raises[OF s1 this, of ps2] evs
  show "check_product_tags (ps1 @ (pname, pdata) # ps2) template force_tag fail_fast =
        (Inl (Github RateLimitExceededException),
         snd (check_product_tags ps1 template force_tag fail_fast))"
    by (simp add: check_product_tags_def)
next
  assume a: "completes (tag_products qs1 fail_fast False) \<and>
    map_of (p_fields pl) ''eups_version'' = Some et \<and>
    tag_requests_error pl = Some RateLimitExceededException"
  then obtain s1 where
    s1: "for_each (tag_body fail_fast False) qs1
           \<lparr>results = (), problems = [], events = []\<rparr> = Inr s1"
    by (auto simp: tag_products_completes)
  from a tag_body_requests_error[of pl et RateLimitExceededException fail_fast qname s1]
  obtain evs where body: "tag_body fail_fast False (qname, pl) s1 =
      Inl (Github RateLimitExceededException, evs)"
    by auto
  from for_each_raises[OF s1 body, of qs2]
  have long: "tag_products (qs1 @ (qname, pl) # qs2) fail_fast False =
      (Inl (Github RateLimitExceededException), evs)"
    by (simp add: tag_products_def)
  from for_each_raises[OF s1 body, of "[]"]
  have short: "tag_products (qs1 @ [(qname, pl)]) fail_fast False =
      (Inl (Github RateLimitExceededException), evs)"
    by (simp add: tag_products_def)
  from long show "fst (tag_products (qs1 @ (qname, pl) # qs2) fail_fast False) =
        Inl (Github RateLimitExceededException)" by simp
  from long short show "tag_products (qs1 @ (qname, pl) # qs2) fail_fast False =
        tag_products (qs1 @ [(qname, pl)]) fail_fast False" by simp
qed


theorem rate_limit_propagates_witness:
  "completes (check_product_tags [(''pkgA'', pkgA ''abc123'')] weekly_template False False) \<and>
   check_rate_limited weekly_template pkgB \<and>
   check_product_tags [(''pkgA'', pkgA ''abc123''), (''pkgB'', pkgB), (''pkgC'', pkgA ''abc123'')]
       weekly_template False False =
     (Inl (Github RateLimitExceededException),
      [Log WARN (NoAction ''lsst/pkgA'' ''w.2018.18'')]) \<and>
   completes (tag_products [] False False) \<and>
   tag_requests_error (new_tag pkgB) = Some RateLimitExceededException \<and>
   fst (tag_products [(''pkgB'', new_tag pkgB), (''pkgA'', new_tag (pkgA ''abc123''))] False False) =
     Inl (Github RateLimitExceededException)"
proof -
  have c1: "completes (check_product_tags [(''pkgA'', pkgA ''abc123'')] weekly_template False False)"
    by (simp add: completes_def check_defs example_defs del: set_filter)
  have e1: "snd (check_product_tags [(''pkgA'', pkgA ''abc123'')] weekly_template False False) =
      [Log WARN (NoAction ''lsst/pkgA'' ''w.2018.18'')]"
    by (simp add: check_defs example_defs del: set_filter)
  have r1: "check_rate_limited weekly_template pkgB"
    by (simp add: check_rate_limited_def product_target_tag_def dict_get_def match_digit_def
          example_defs more_example_defs)
  have c2: "completes (tag_products [] False False)"
    by (simp add: completes_def tag_products_def)
  have f2: "map_of (p_fields (new_tag pkgB)) ''eups_version'' = Some ''w_2018_18''"
    by (simp add: more_example_defs)
  have r2: "tag_requests_error (new_tag pkgB) = Some RateLimitExceededException"
    by (simp add: tag_requests_error_def more_example_defs)
  from rate_limit_propagates[where ?ps1.0 = "[(''pkgA'', pkgA ''abc123'')]"
      and template = weekly_template and force_tag = False and fail_fast = False
      and pdata = pkgB and pname = "''pkgB''" and ?ps2.0 = "[(''pkgC'', pkgA ''abc123'')]"
      and ?qs1.0 = "[]" and pl = "new_tag pkgB" and et = "''w_2018_18''" and qname = "''pkgB''"
      and ?qs2.0 = "[(''pkgA'', new_tag (pkgA ''abc123''))]"]
    c1 e1 r1 c2 f2 r2
  have "check_product_tags
       [(''pkgA'', pkgA ''abc123''), (''pkgB'', pkgB), (''pkgC'', pkgA ''abc123'')]
       weekly_template False False =
     (Inl (Github RateLimitExceededException),
      [Log WARN (NoAction ''lsst/pkgA'' ''w.2018.18'')]) \<and>
    fst (tag_products [(''pkgB'', new_tag pkgB), (''pkgA'', new_tag (pkgA ''abc123''))] False False) =
     Inl (Github RateLimitExceededException)"
    by (simp add: tag_defs more_example_defs)
  with c1 r1 c2 r2 show ?thesis by simp
qed

text \<open>C10. Under \<open>dry_run\<close> the applier sends no request that changes a repository,
  whatever the plans are. When every plan has the key \<open>eups_version\<close>, which the
  notice prints, it returns, and its events are the two notices of each plan in order;
  the plans that the planner returns for products that the resolver returned all have
  the key.\<close>

theorem dry_run_requests_nothing:
  "(\<forall>ev \<in> set (snd (tag_products plans fail_fast True)). \<not> is_call ev) \<and>
   ((\<forall>(n, pl) \<in> set plans. \<exists>et. map_of (p_fields pl) ''eups_version'' = Some et) \<longrightarrow>
      tag_products plans fail_fast True =
        (Inr (),
         concat (map (\<lambda>(n, pl). case map_of (p_fields pl) ''eups_version'' of
                   None \<Rightarrow> []
                 | Some et \<Rightarrow>
                     [Log INFO (TaggingRepo (full_name (p_repo pl)) (tag_sha (p_target_tag pl))
                        (tag_name (p_target_tag pl)) et (p_v pl) (p_update_tag pl)),
                      Log INFO Noop]) plans))) \<and>
   (get_repo_for_products org products allow_teams ext_teams deny_teams resolve_fail_fast =
      (Inr resolved, evs1) \<and>
    check_product_tags resolved template force_tag check_fail_fast = (Inr plans, evs2) \<longrightarrow>
      fst (tag_products plans fail_fast True) = Inr ())"
proof (intro conjI impI)
  show "\<forall>ev \<in> set (snd (tag_products plans fail_fast True)). \<not> is_call ev"
    using tag_loop_dry_run_calls[where ff=fail_fast and plans=plans]
    by (auto simp: tag_products_def split: sum.splits if_splits prod.splits)
next
  assume "\<forall>(n, pl) \<in> set plans. \<exists>et. map_of (p_fields pl) ''eups_version'' = Some et"
  from tag_loop_dry_run[OF this, of fail_fast "\<lparr>results = (), problems = [], events = []\<rparr>"]
  show "tag_products plans fail_fast True =
        (Inr (),
         concat (map (\<lambda>(n, pl). case map_of (p_fields pl) ''eups_version'' of
                   None \<Rightarrow> []
                 | Some et \<Rightarrow>
                     [Log INFO (TaggingRepo (full_name (p_repo pl)) (tag_sha (p_target_tag pl))
                        (tag_name (p_target_tag pl)) et (p_v pl) (p_update_tag pl)),
                      Log INFO Noop]) plans))"
    by (simp add: tag_products_def)
next
  assume a: "get_repo_for_products org products allow_teams ext_teams deny_teams resolve_fail_fast =
      (Inr resolved, evs1) \<and>
    check_product_tags resolved template force_tag check_fail_fast = (Inr plans, evs2)"
  have "\<forall>(n, pl) \<in> set plans. \<exists>et. map_of (p_fields pl) ''eups_version'' = Some et"
  proof (clarify)
    fix n pl
    assume "(n, pl) \<in> set plans"
    with a check_product_tags_entries[of resolved template force_tag check_fail_fast plans evs2 n pl]
    obtain d where "(n, d) \<in> set resolved" "p_fields pl = p_fields d" by auto
    with a get_repo_for_products_fields[of org products allow_teams ext_teams deny_teams
        resolve_fail_fast resolved evs1 n d]
    show "\<exists>et. map_of (p_fields pl) ''eups_version'' = Some et" by simp
  qed
  from tag_loop_dry_run[OF this, of fail_fast "\<lparr>results = (), problems = [], events = []\<rparr>"]
  show "fst (tag_products plans fail_fast True) = Inr ()"
    by (simp add: tag_products_def)
qed

theorem dry_run_requests_nothing_witness:
  "tag_products [(''pkgA'', new_tag (pkgA ''9f8e7d'')), (''pkgB'', new_tag pkgB)] False True =
     (Inr (),
      [Log INFO (TaggingRepo ''lsst/pkgA'' ''abc123'' ''w.2018.18'' ''w_2018_18'' False False),
       Log INFO Noop,
       Log INFO (TaggingRepo ''lsst/pkgB'' ''abc123'' ''w.2018.18'' ''w_2018_18'' False False),
       Log INFO Noop])"
proof -
  have "\<forall>(n, pl) \<in> set [(''pkgA'', new_tag (pkgA ''9f8e7d'')), (''pkgB'', new_tag pkgB)].
          \<exists>et. map_of (p_fields pl) ''eups_version'' = Some et"
    by (simp add: example_defs more_example_defs)
  with dry_run_requests_nothing[where plans = "[(''pkgA'', new_tag (pkgA ''9f8e7d'')), (''pkgB'', new_tag pkgB)]"
      and fail_fast = False]
  show ?thesis
    by (simp add: example_defs more_example_defs)
qed

end
